theory Spec2Isabelle
  imports Complex_Main "HOL-Library.Word"
begin

section \<open>JavaScript numbers\<close>

text \<open>
  The numbers of the dimension arithmetic are IEEE 754 doubles. A finite double is
  modelled by the real number it denotes (the two zeros are not told apart), and the
  infinities and NaN are values of their own: a division by zero does not fail in
  JavaScript. Every division and multiplication rounds its exact result to the nearest
  double, ties to the even significand, as the hardware does.
\<close>

datatype jsnum = Fin real | PosInf | NegInf | NaN

text \<open>The number of binary digits of a natural number.\<close>

fun bit_length :: "nat \<Rightarrow> nat" where
  "bit_length n = (if n = 0 then 0 else Suc (bit_length (n div 2)))"

declare bit_length.simps [simp del]

text \<open>The exponent \<open>e\<close> with \<open>2 ^ e \<le> x < 2 ^ (e + 1)\<close>, for a positive \<open>x\<close>.\<close>

definition binade :: "real \<Rightarrow> int" where
  "binade x =
     (if 1 \<le> x then int (bit_length (nat \<lfloor>x\<rfloor>)) - 1
      else - int (bit_length (nat (\<lceil>1 / x\<rceil> - 1))))"

definition pow2 :: "int \<Rightarrow> real" where
  "pow2 k = (if 0 \<le> k then 2 ^ nat k else 1 / 2 ^ nat (- k))"

definition round_half_even :: "real \<Rightarrow> int" where
  "round_half_even m =
     (let n = \<lfloor>m\<rfloor>; d = m - of_int n
      in if d < 1 / 2 then n
         else if 1 / 2 < d then n + 1
         else if even n then n else n + 1)"

text \<open>
  A positive real rounded to a significand of 53 bits; below \<open>2 ^ - 1022\<close> the spacing of
  the subnormal numbers, \<open>2 ^ - 1074\<close>, is kept.
\<close>

definition round_positive :: "real \<Rightarrow> real" where
  "round_positive a =
     (let ulp = pow2 (max (binade a) (- 1022) - 52)
      in of_int (round_half_even (a / ulp)) * ulp)"

text \<open>The double nearest to a real; a result of \<open>2 ^ 1024\<close> or more is an infinity.\<close>

definition to_double :: "real \<Rightarrow> jsnum" where
  "to_double x =
     (if x = 0 then Fin 0
      else if 0 < x then
        (if pow2 1024 \<le> round_positive x then PosInf else Fin (round_positive x))
      else
        (if pow2 1024 \<le> round_positive (- x) then NegInf else Fin (- round_positive (- x))))"

text \<open>\<open>a / b\<close> for finite \<open>a\<close> and \<open>b\<close>.\<close>

definition js_div :: "real \<Rightarrow> real \<Rightarrow> jsnum" where
  "js_div a b =
     (if b \<noteq> 0 then to_double (a / b)
      else if a > 0 then PosInf
      else if a < 0 then NegInf
      else NaN)"

fun math_min :: "jsnum \<Rightarrow> jsnum \<Rightarrow> jsnum" where
  "math_min NaN y = NaN"
| "math_min x NaN = NaN"
| "math_min NegInf y = NegInf"
| "math_min x NegInf = NegInf"
| "math_min PosInf y = y"
| "math_min x PosInf = x"
| "math_min (Fin a) (Fin b) = Fin (min a b)"

text \<open>\<open>a * r\<close> for a finite \<open>a\<close>.\<close>

fun js_mul :: "real \<Rightarrow> jsnum \<Rightarrow> jsnum" where
  "js_mul a (Fin r) = to_double (a * r)"
| "js_mul a PosInf = (if a > 0 then PosInf else if a < 0 then NegInf else NaN)"
| "js_mul a NegInf = (if a > 0 then NegInf else if a < 0 then PosInf else NaN)"
| "js_mul a NaN = NaN"

text \<open>
  The conversion of a number to an \<open>unsigned long\<close>, made when it is assigned to
  \<open>canvas.width\<close> or \<open>canvas.height\<close>: NaN and the infinities give 0, a finite number is
  truncated towards zero and reduced modulo \<open>2 ^ 32\<close>.
\<close>

fun to_unsigned_long :: "jsnum \<Rightarrow> nat" where
  "to_unsigned_long (Fin x) = nat ((if 0 \<le> x then \<lfloor>x\<rfloor> else \<lceil>x\<rceil>) mod 2 ^ 32)"
| "to_unsigned_long v = 0"

text \<open>
  Both attributes reflect a content attribute: a value above 2147483647 is replaced by the
  default of the attribute, 300 for the width and 150 for the height.
\<close>

definition reflected :: "nat \<Rightarrow> jsnum \<Rightarrow> nat" where
  "reflected dflt v =
     (if to_unsigned_long v \<le> 2147483647 then to_unsigned_long v else dflt)"

section \<open>Image compression (\<open>compressImage\<close>, \<open>compressImages\<close>)\<close>

subsection \<open>Data\<close>

type_synonym byte = "8 word"

text \<open>A \<open>Blob\<close> and a \<open>File\<close>; \<open>size\<close> is the number of bytes held.\<close>

record blob =
  blob_data :: "byte list"
  blob_type :: string

record File =
  file_name :: string
  file_type :: string
  file_lastModified :: nat
  file_data :: "byte list"

definition blob_size :: "blob \<Rightarrow> nat" where
  "blob_size b = length (blob_data b)"

definition file_size :: "File \<Rightarrow> nat" where
  "file_size f = length (file_data f)"

text \<open>\<open>new File([b], name, {type: ty, lastModified: t})\<close>\<close>

definition new_File :: "blob \<Rightarrow> string \<Rightarrow> string \<Rightarrow> nat \<Rightarrow> File" where
  "new_File b name ty t =
     \<lparr>file_name = name, file_type = ty, file_lastModified = t, file_data = blob_data b\<rparr>"

text \<open>A loaded \<open>Image\<close>: \<open>img.width\<close> and \<open>img.height\<close> are unsigned integers.\<close>

record image =
  img_width :: nat
  img_height :: nat
  img_src :: string

text \<open>
  The canvas: its size in pixels, and the \<open>drawImage(img, 0, 0, width, height)\<close> call made
  on its context, if any, with the numbers passed for \<open>width\<close> and \<open>height\<close>.
\<close>

record canvas =
  canvas_width :: nat
  canvas_height :: nat
  canvas_drawn :: "(image \<times> jsnum \<times> jsnum) option"

text \<open>The four \<open>reject(new Error(...))\<close> of \<open>compressImage\<close>.\<close>

datatype compress_error =
    FailedToReadFile
  | FailedToLoadImage
  | FailedToGetCanvasContext
  | FailedToCompressImage

fun error_message :: "compress_error \<Rightarrow> string" where
  "error_message FailedToReadFile = ''Failed to read file''"
| "error_message FailedToLoadImage = ''Failed to load image''"
| "error_message FailedToGetCanvasContext = ''Failed to get canvas context''"
| "error_message FailedToCompressImage = ''Failed to compress image''"

text \<open>How the promise settles.\<close>

datatype 'a outcome = Resolve 'a | Reject compress_error

text \<open>
  The browser: \<open>FileReader.readAsDataURL\<close> (\<open>None\<close>: \<open>onerror\<close> fires), the loading of an
  \<open>Image\<close> from a data URL (\<open>None\<close>: \<open>onerror\<close> fires), \<open>canvas.getContext('2d')\<close> (\<open>False\<close>:
  it returns null), \<open>canvas.toBlob(callback, type, quality)\<close> (\<open>None\<close>: the callback receives
  null) and the value of \<open>Date.now()\<close> when the output file for an input is built.
\<close>

record env =
  readAsDataURL :: "File \<Rightarrow> string option"
  loadImage :: "string \<Rightarrow> image option"
  getContext :: "canvas \<Rightarrow> bool"
  toBlob :: "canvas \<Rightarrow> string \<Rightarrow> real \<Rightarrow> blob option"
  dateNow :: "File \<Rightarrow> nat"

text \<open>
  The browser operations a call performs, in order. \<open>CreateCanvas w h\<close>: a canvas is
  created and the numbers \<open>w\<close> and \<open>h\<close> are assigned to its width and height.
  \<open>DrawImage w h\<close>: \<open>drawImage(img, 0, 0, w, h)\<close>. \<open>Encode ty q\<close>: \<open>toBlob\<close> with that type and
  quality.
\<close>

datatype event =
    ReadFile
  | DecodeImage
  | CreateCanvas jsnum jsnum
  | DrawImage jsnum jsnum
  | Encode string real

fun is_encode :: "event \<Rightarrow> bool" where
  "is_encode (Encode ty q) = True"
| "is_encode ev = False"

fun is_decode :: "event \<Rightarrow> bool" where
  "is_decode DecodeImage = True"
| "is_decode ev = False"

fun is_canvas :: "event \<Rightarrow> bool" where
  "is_canvas (CreateCanvas w h) = True"
| "is_canvas ev = False"

subsection \<open>\<open>compressImage\<close>\<close>

text \<open>
  \<open>maxSizeMB * 1024 * 1024\<close>. The budget and the quality are the reals their doubles denote:
  they enter comparisons, which are exact on doubles, and the one subtraction
  \<open>quality - 0.2\<close>, whose result is only handed to the encoder.
\<close>

definition max_bytes :: "real \<Rightarrow> real" where
  "max_bytes maxSizeMB = maxSizeMB * 1024 * 1024"

text \<open>\<open>file.type || 'image/jpeg'\<close>\<close>

definition output_type :: "File \<Rightarrow> string" where
  "output_type f = (if file_type f = [] then ''image/jpeg'' else file_type f)"

text \<open>
  "Calculate new dimensions": the values of \<open>width\<close> and \<open>height\<close> after the \<open>if\<close>.
\<close>

definition new_dimensions :: "nat \<Rightarrow> nat \<Rightarrow> real \<Rightarrow> real \<Rightarrow> jsnum \<times> jsnum" where
  "new_dimensions width height maxWidth maxHeight =
     (if real width > maxWidth \<or> real height > maxHeight then
        let ratio = math_min (js_div maxWidth (real width)) (js_div maxHeight (real height))
        in (js_mul (real width) ratio, js_mul (real height) ratio)
      else (Fin (real width), Fin (real height)))"

text \<open>The callback of the second \<open>canvas.toBlob\<close>.\<close>

definition second_callback :: "env \<Rightarrow> File \<Rightarrow> blob \<Rightarrow> blob option \<Rightarrow> File outcome" where
  "second_callback e f blob smallerBlob =
     (case smallerBlob of
        None \<Rightarrow> Resolve (new_File blob (file_name f) (output_type f) (dateNow e f))
      | Some sb \<Rightarrow> Resolve (new_File sb (file_name f) (output_type f) (dateNow e f)))"

text \<open>The callback of the first \<open>canvas.toBlob\<close>.\<close>

definition first_callback ::
  "env \<Rightarrow> File \<Rightarrow> canvas \<Rightarrow> real \<Rightarrow> real \<Rightarrow> blob option \<Rightarrow> event list \<times> File outcome" where
  "first_callback e f cv quality maxSizeMB blob =
     (case blob of
        None \<Rightarrow> ([], Reject FailedToCompressImage)
      | Some b \<Rightarrow>
          if real (blob_size b) > max_bytes maxSizeMB \<and> quality > 0.3 then
            ([Encode (output_type f) (max 0.3 (quality - 0.2))],
             second_callback e f b (toBlob e cv (output_type f) (max 0.3 (quality - 0.2))))
          else ([], Resolve (new_File b (file_name f) (output_type f) (dateNow e f))))"

text \<open>
  \<open>img.onload\<close>, in two steps: the canvas as created and sized by the assignments
  \<open>canvas.width = width\<close> and \<open>canvas.height = height\<close>, and the canvas after
  \<open>ctx.drawImage(img, 0, 0, width, height)\<close>.
\<close>

definition sized_canvas :: "image \<Rightarrow> real \<Rightarrow> real \<Rightarrow> canvas" where
  "sized_canvas img maxWidth maxHeight =
     (let (width, height) = new_dimensions (img_width img) (img_height img) maxWidth maxHeight
      in \<lparr>canvas_width = reflected 300 width, canvas_height = reflected 150 height,
          canvas_drawn = None\<rparr>)"

definition drawn_canvas :: "image \<Rightarrow> real \<Rightarrow> real \<Rightarrow> canvas" where
  "drawn_canvas img maxWidth maxHeight =
     (let (width, height) = new_dimensions (img_width img) (img_height img) maxWidth maxHeight
      in (sized_canvas img maxWidth maxHeight)\<lparr>canvas_drawn := Some (img, width, height)\<rparr>)"

definition img_onload ::
  "env \<Rightarrow> File \<Rightarrow> image \<Rightarrow> real \<Rightarrow> real \<Rightarrow> real \<Rightarrow> real \<Rightarrow> event list \<times> File outcome" where
  "img_onload e f img maxWidth maxHeight quality maxSizeMB =
     (let (width, height) = new_dimensions (img_width img) (img_height img) maxWidth maxHeight;
          cv = sized_canvas img maxWidth maxHeight
      in if \<not> getContext e cv then
           ([CreateCanvas width height], Reject FailedToGetCanvasContext)
         else
           let cv' = drawn_canvas img maxWidth maxHeight;
               (evs, res) = first_callback e f cv' quality maxSizeMB
                              (toBlob e cv' (output_type f) quality)
           in ([CreateCanvas width height, DrawImage width height,
                Encode (output_type f) quality] @ evs, res))"

text \<open>\<open>reader.onload\<close>\<close>

definition reader_onload ::
  "env \<Rightarrow> File \<Rightarrow> string \<Rightarrow> real \<Rightarrow> real \<Rightarrow> real \<Rightarrow> real \<Rightarrow> event list \<times> File outcome" where
  "reader_onload e f url maxWidth maxHeight quality maxSizeMB =
     (case loadImage e url of
        None \<Rightarrow> ([DecodeImage], Reject FailedToLoadImage)
      | Some img \<Rightarrow>
          let (evs, res) = img_onload e f img maxWidth maxHeight quality maxSizeMB
          in (DecodeImage # evs, res))"

text \<open>
  The promise executor of \<open>compressImage\<close>. The result is the list of browser operations
  performed and the way the promise settles.
\<close>

definition compressImage ::
  "env \<Rightarrow> File \<Rightarrow> real \<Rightarrow> real \<Rightarrow> real \<Rightarrow> real \<Rightarrow> event list \<times> File outcome" where
  "compressImage e f maxWidth maxHeight quality maxSizeMB =
     (if real (file_size f) \<le> max_bytes maxSizeMB then ([], Resolve f)
      else
        case readAsDataURL e f of
          None \<Rightarrow> ([ReadFile], Reject FailedToReadFile)
        | Some url \<Rightarrow>
            let (evs, res) = reader_onload e f url maxWidth maxHeight quality maxSizeMB
            in (ReadFile # evs, res))"

text \<open>The encode attempts among the operations of a call, in order.\<close>

definition encodes :: "event list \<Rightarrow> event list" where
  "encodes evs = filter is_encode evs"

text \<open>
  Whether some encode attempt was made at the quality floor \<open>0.3\<close> or below it.
\<close>

fun at_floor :: "event \<Rightarrow> bool" where
  "at_floor (Encode ty q) = (q \<le> 0.3)"
| "at_floor ev = False"

definition floor_reached :: "event list \<Rightarrow> bool" where
  "floor_reached evs = list_ex at_floor evs"

text \<open>
  Whether the encode attempts the program allows itself are used up: the retry was made,
  or the quality was at most \<open>0.3\<close>, where no retry is allowed.
\<close>

definition attempts_exhausted :: "real \<Rightarrow> event list \<Rightarrow> bool" where
  "attempts_exhausted quality evs = (quality \<le> 0.3 \<or> length (encodes evs) = 2)"

subsection \<open>\<open>compressImages\<close>\<close>

text \<open>The \<open>options\<close> argument: the object may be absent, and so may each of its fields.\<close>

record options =
  opt_maxWidth :: "real option"
  opt_maxHeight :: "real option"
  opt_quality :: "real option"
  opt_maxSizeMB :: "real option"

text \<open>A destructuring default: \<open>{ x = d } = options || {}\<close>.\<close>

definition option_or :: "options option \<Rightarrow> (options \<Rightarrow> real option) \<Rightarrow> real \<Rightarrow> real" where
  "option_or opts field d =
     (case opts of
        None \<Rightarrow> d
      | Some os \<Rightarrow> (case field os of None \<Rightarrow> d | Some v \<Rightarrow> v))"

text \<open>
  \<open>Promise.all\<close>: it rejects with the reason of the promise that rejects first, and
  otherwise resolves with the values in the order of the promises. Which promise settles
  first is decided by the browser: \<open>order\<close> lists the positions of the promises in the
  order in which they settle.
\<close>

fun first_rejection :: "nat list \<Rightarrow> 'a outcome list \<Rightarrow> compress_error option" where
  "first_rejection [] ps = None"
| "first_rejection (i # order) ps =
     (if i < length ps then
        (case ps ! i of
           Reject err \<Rightarrow> Some err
         | Resolve v \<Rightarrow> first_rejection order ps)
      else first_rejection order ps)"

fun resolved_values :: "'a outcome list \<Rightarrow> 'a list" where
  "resolved_values [] = []"
| "resolved_values (Resolve v # ps) = v # resolved_values ps"
| "resolved_values (Reject err # ps) = resolved_values ps"

definition promise_all :: "nat list \<Rightarrow> 'a outcome list \<Rightarrow> 'a list outcome" where
  "promise_all order ps =
     (case first_rejection order ps of
        Some err \<Rightarrow> Reject err
      | None \<Rightarrow> Resolve (resolved_values ps))"

text \<open>
  The arrow function mapped over the files, with the defaults of the destructuring:
  \<^verbatim>\<open>(file) => compressImage(file, maxWidth, maxHeight, quality, maxSizeMB)\<close>
\<close>

definition item_promise :: "env \<Rightarrow> options option \<Rightarrow> File \<Rightarrow> event list \<times> File outcome" where
  "item_promise e opts file =
     (let maxWidth = option_or opts opt_maxWidth 1920;
          maxHeight = option_or opts opt_maxHeight 1920;
          quality = option_or opts opt_quality 0.8;
          maxSizeMB = option_or opts opt_maxSizeMB 1
      in compressImage e file maxWidth maxHeight quality maxSizeMB)"

text \<open>
  The result is the operations performed for each file, file by file, and the way the
  promise of the batch settles.
\<close>

definition compressImages ::
  "env \<Rightarrow> nat list \<Rightarrow> File list \<Rightarrow> options option \<Rightarrow> event list list \<times> File list outcome" where
  "compressImages e order files opts =
     (let promises = map (item_promise e opts) files
      in (map fst promises, promise_all order (map snd promises)))"

section \<open>The remote service (\<open>generateMatchingSet\<close>, \<open>checkJobStatus\<close>)\<close>

text \<open>A JSON value, as \<open>response.json()\<close> yields it.\<close>

datatype json =
    JNull
  | JBool bool
  | JNumber real
  | JString string
  | JArray "json list"
  | JObject "(string \<times> json) list"

text \<open>
  The response of \<open>fetch\<close>: its status code and its body, \<open>None\<close> when \<open>response.json()\<close>
  rejects (the body is absent or is not JSON). \<open>response.ok\<close> is true for the codes 200
  to 299.
\<close>

record response =
  response_status :: nat
  response_body :: "json option"

definition response_ok :: "response \<Rightarrow> bool" where
  "response_ok r = (200 \<le> response_status r \<and> response_status r \<le> 299)"

datatype fetch_result = NetworkFailure | Fetched response

text \<open>
  What the two functions throw: an \<open>Error\<close> built by the program from a string, an \<open>Error\<close>
  built from a JSON value that is not a string (its message is the string conversion of
  that value, which is not modelled), the \<open>TypeError\<close> of a property read on null, the
  rejection of \<open>fetch\<close> itself, and the rejection of \<open>response.json()\<close>.
\<close>

datatype thrown =
    Error string
  | ErrorOfValue json
  | TypeErrorNullRead
  | FetchRejected
  | JsonRejected

text \<open>The decimal digits of a number, as a template literal prints it.\<close>

fun decimal :: "nat \<Rightarrow> string" where
  "decimal n =
     (if n < 10 then [''0123456789'' ! n]
      else decimal (n div 10) @ [''0123456789'' ! (n mod 10)])"

text \<open>JavaScript truthiness of a JSON value.\<close>

fun truthy :: "json \<Rightarrow> bool" where
  "truthy JNull = False"
| "truthy (JBool b) = b"
| "truthy (JNumber x) = (x \<noteq> 0)"
| "truthy (JString s) = (s \<noteq> [])"
| "truthy (JArray xs) = True"
| "truthy (JObject kvs) = True"

text \<open>
  \<open>errorData.message\<close>: \<open>None\<close> is \<open>undefined\<close>; the read itself throws on null. In an
  object with a repeated key the last entry counts. An array and the primitive values
  have no property of that name.
\<close>

fun message_of :: "json \<Rightarrow> thrown + json option" where
  "message_of JNull = Inl TypeErrorNullRead"
| "message_of (JObject kvs) = Inr (map_of (rev kvs) ''message'')"
| "message_of v = Inr None"

text \<open>
  The body of \<open>if (!response.ok) { ... }\<close>, which is the same text in both functions:
  \<^verbatim>\<open>const errorData = await response.json().catch(() => ({ message: 'Unknown error' }));\<close>
  \<^verbatim>\<open>throw new Error(errorData.message || `HTTP error! status: ${response.status}`);\<close>
\<close>

definition http_error :: "response \<Rightarrow> thrown" where
  "http_error r =
     (let errorData = (case response_body r of
                         None \<Rightarrow> JObject [(''message'', JString ''Unknown error'')]
                       | Some j \<Rightarrow> j)
      in case message_of errorData of
           Inl t \<Rightarrow> t
         | Inr (Some (JString m)) \<Rightarrow>
             if m \<noteq> [] then Error m
             else Error (''HTTP error! status: '' @ decimal (response_status r))
         | Inr (Some v) \<Rightarrow>
             if truthy v then ErrorOfValue v
             else Error (''HTTP error! status: '' @ decimal (response_status r))
         | Inr None \<Rightarrow> Error (''HTTP error! status: '' @ decimal (response_status r)))"

text \<open>
  Both functions, from the configured URL and the outcome of their \<open>fetch\<close>. The request
  they build has no influence on how they treat the response and is left out.
\<close>

definition generateMatchingSet :: "string \<Rightarrow> fetch_result \<Rightarrow> thrown + json" where
  "generateMatchingSet SUPABASE_FUNCTION_URL fetched =
     (if SUPABASE_FUNCTION_URL = [] then Inl (Error ''Supabase function URL is not configured'')
      else
        case fetched of
          NetworkFailure \<Rightarrow> Inl FetchRejected
        | Fetched r \<Rightarrow>
            if \<not> response_ok r then Inl (http_error r)
            else (case response_body r of None \<Rightarrow> Inl JsonRejected | Some j \<Rightarrow> Inr j))"

definition checkJobStatus :: "string \<Rightarrow> fetch_result \<Rightarrow> thrown + json" where
  "checkJobStatus SUPABASE_FUNCTION_URL fetched =
     (if SUPABASE_FUNCTION_URL = [] then Inl (Error ''Supabase function URL is not configured'')
      else
        case fetched of
          NetworkFailure \<Rightarrow> Inl FetchRejected
        | Fetched r \<Rightarrow>
            if \<not> response_ok r then Inl (http_error r)
            else (case response_body r of None \<Rightarrow> Inl JsonRejected | Some j \<Rightarrow> Inr j))"

section \<open>Polling (\<open>startPolling\<close>)\<close>

text \<open>\<open>output: string | string[] | null\<close>, with \<open>None\<close> for null.\<close>

datatype job_output = OutString string | OutList "string list"

text \<open>The fields of a \<open>StatusResponse\<close> that \<open>poll\<close> reads.\<close>

record status_response =
  sr_message :: string
  sr_status :: string
  sr_output :: "job_output option"
  sr_error :: "string option"

text \<open>What \<open>await checkJobStatus(id)\<close> gives: a response, or an exception.\<close>

datatype caught = ErrorInstance string | OtherValue

datatype poll_result = Returned status_response | Threw caught

text \<open>The tests \<open>if (response.data.output)\<close> and \<open>if (response.data.error)\<close>.\<close>

fun output_truthy :: "job_output option \<Rightarrow> bool" where
  "output_truthy None = False"
| "output_truthy (Some (OutString s)) = (s \<noteq> [])"
| "output_truthy (Some (OutList xs)) = True"

fun error_truthy :: "string option \<Rightarrow> bool" where
  "error_truthy None = False"
| "error_truthy (Some s) = (s \<noteq> [])"

text \<open>\<open>['succeeded', 'failed', 'canceled'].includes(currentStatus)\<close>\<close>

definition is_terminal :: "string \<Rightarrow> bool" where
  "is_terminal currentStatus = (currentStatus \<in> set [''succeeded'', ''failed'', ''canceled''])"

text \<open>The calls the page makes, in order.\<close>

datatype call =
    CheckJobStatus string
  | SetStatus string
  | SetStatusMessage string
  | SetGeneratedImages job_output
  | SetError string
  | SetIsGenerating bool
  | SetInterval
  | ClearInterval

text \<open>
  The state of the page that polling touches. \<open>pollingIntervalRef\<close> holds the job id that
  the installed interval polls, \<open>None\<close> when the reference is null. \<open>inflight\<close> counts the
  status requests that have been sent and not yet answered.
\<close>

record page =
  status :: string
  statusMessage :: string
  generatedImages :: "job_output option"
  error :: "string option"
  isGenerating :: bool
  pollingIntervalRef :: "string option"
  inflight :: nat
  calls :: "call list"

definition did :: "call \<Rightarrow> page \<Rightarrow> page" where
  "did c s = s\<lparr>calls := calls s @ [c]\<rparr>"

text \<open>
  \<^verbatim>\<open>if (pollingIntervalRef.current) { clearInterval(pollingIntervalRef.current);\<close>
  \<^verbatim>\<open>pollingIntervalRef.current = null; }\<close>
\<close>

definition clear_polling :: "page \<Rightarrow> page" where
  "clear_polling s =
     (case pollingIntervalRef s of
        None \<Rightarrow> s
      | Some t \<Rightarrow> did ClearInterval (s\<lparr>pollingIntervalRef := None\<rparr>))"

text \<open>\<open>poll\<close> up to its \<open>await\<close>: the request is sent.\<close>

definition poll_send :: "string \<Rightarrow> page \<Rightarrow> page" where
  "poll_send ident s = did (CheckJobStatus ident) (s\<lparr>inflight := inflight s + 1\<rparr>)"

text \<open>\<open>poll\<close> after its \<open>await\<close>, on a response.\<close>

definition poll_response :: "status_response \<Rightarrow> page \<Rightarrow> page" where
  "poll_response r s =
     (let currentStatus = sr_status r;
          s1 = did (SetStatus currentStatus) (s\<lparr>status := currentStatus\<rparr>);
          s2 = did (SetStatusMessage (sr_message r)) (s1\<lparr>statusMessage := sr_message r\<rparr>);
          s3 = (if output_truthy (sr_output r) then
                  did (SetGeneratedImages (the (sr_output r)))
                    (s2\<lparr>generatedImages := sr_output r\<rparr>)
                else s2)
      in if error_truthy (sr_error r) then
           clear_polling
             (did (SetIsGenerating False)
                (did (SetError (the (sr_error r)))
                   (s3\<lparr>error := sr_error r, isGenerating := False\<rparr>)))
         else if is_terminal currentStatus then
           clear_polling (did (SetIsGenerating False) (s3\<lparr>isGenerating := False\<rparr>))
         else s3)"

text \<open>The \<open>catch\<close> block of \<open>poll\<close>.\<close>

definition poll_catch :: "caught \<Rightarrow> page \<Rightarrow> page" where
  "poll_catch err s =
     (let msg = (case err of
                   ErrorInstance m \<Rightarrow> m
                 | OtherValue \<Rightarrow> ''Failed to check job status'')
      in clear_polling
           (did (SetIsGenerating False)
              (did (SetError msg) (s\<lparr>error := Some msg, isGenerating := False\<rparr>))))"

text \<open>
  \<open>startPolling\<close>: the old interval is cleared, \<open>poll()\<close> is called at once (it runs up to
  its \<open>await\<close>), and the interval is installed.
\<close>

definition startPolling :: "string \<Rightarrow> page \<Rightarrow> page" where
  "startPolling ident s =
     did SetInterval ((poll_send ident (clear_polling s))\<lparr>pollingIntervalRef := Some ident\<rparr>)"

text \<open>
  What happens next on the event loop: the interval fires (it can only while it is
  installed) and \<open>poll\<close> sends a request, or the answer to a request in flight arrives and
  \<open>poll\<close> resumes after its \<open>await\<close>.
\<close>

datatype signal = Tick | Arrive poll_result

fun step :: "signal \<Rightarrow> page \<Rightarrow> page" where
  "step Tick s =
     (case pollingIntervalRef s of
        None \<Rightarrow> s
      | Some ident \<Rightarrow> poll_send ident s)"
| "step (Arrive res) s =
     (if inflight s = 0 then s
      else
        case res of
          Returned r \<Rightarrow> poll_response r (s\<lparr>inflight := inflight s - 1\<rparr>)
        | Threw err \<Rightarrow> poll_catch err (s\<lparr>inflight := inflight s - 1\<rparr>))"

definition run :: "signal list \<Rightarrow> page \<Rightarrow> page" where
  "run sigs s = fold step sigs s"

text \<open>
  A scripted session: every answer arrives before the interval fires again.
\<close>

definition scripted :: "poll_result list \<Rightarrow> signal list" where
  "scripted rs = concat (map (\<lambda>r. [Arrive r, Tick]) rs)"

fun is_request :: "call \<Rightarrow> bool" where
  "is_request (CheckJobStatus ident) = True"
| "is_request c = False"

fun is_update :: "call \<Rightarrow> bool" where
  "is_update (SetStatus v) = True"
| "is_update c = False"

text \<open>The number of status requests sent, and of status updates delivered.\<close>

definition requests :: "page \<Rightarrow> nat" where
  "requests s = length (filter is_request (calls s))"


text \<open>The page as \<open>handleSubmit\<close> leaves it before it calls \<open>startPolling\<close>.\<close>

definition submitted_page :: page where
  "submitted_page =
     \<lparr>status = [], statusMessage = [], generatedImages = None, error = None,
      isGenerating = True, pollingIntervalRef = None, inflight = 0, calls = []\<rparr>"

text \<open>A snapshot with the given status tag and nothing else.\<close>

definition snapshot :: "string \<Rightarrow> status_response" where
  "snapshot tag = \<lparr>sr_message = [], sr_status = tag, sr_output = None, sr_error = None\<rparr>"

subsection \<open>The status badge (\<open>StatusDisplay\<close>)\<close>

text \<open>
  \<open>toLowerCase\<close> on the letters A to Z; other characters are left as they are (the model's
  characters are bytes).
\<close>

definition lower_char :: "char \<Rightarrow> char" where
  "lower_char c =
     (case map_of (zip ''ABCDEFGHIJKLMNOPQRSTUVWXYZ'' ''abcdefghijklmnopqrstuvwxyz'') c of
        None \<Rightarrow> c
      | Some l \<Rightarrow> l)"

definition toLowerCase :: "string \<Rightarrow> string" where
  "toLowerCase s = map lower_char s"

definition getStatusColor :: "string \<Rightarrow> string" where
  "getStatusColor st =
     (let l = toLowerCase st
      in if l = ''starting'' \<or> l = ''processing'' then ''bg-blue-500 text-blue-50''
         else if l = ''succeeded'' \<or> l = ''completed'' then ''bg-green-500 text-green-50''
         else if l = ''failed'' \<or> l = ''canceled'' then ''bg-red-500 text-red-50''
         else ''bg-gray-500 text-gray-50'')"

section \<open>Sample inputs\<close>

text \<open>
  A browser whose encoder produces \<open>2000000 * quality\<close> bytes, whatever the picture, and
  which fails to decode the file named \<open>broken.png\<close>; every picture it decodes is 4000 by
  2000 pixels.
\<close>

definition sample_env :: env where
  "sample_env =
     \<lparr>readAsDataURL = (\<lambda>f. Some (file_name f)),
      loadImage = (\<lambda>url. if url = ''broken.png'' then None
                          else Some \<lparr>img_width = 4000, img_height = 2000, img_src = url\<rparr>),
      getContext = (\<lambda>cv. True),
      toBlob = (\<lambda>cv ty q. Some \<lparr>blob_data = replicate (nat \<lfloor>q * 2000000\<rfloor>) 0,
                                  blob_type = ty\<rparr>),
      dateNow = (\<lambda>f. 1700000000000)\<rparr>"

text \<open>The same browser, except that its encoder gives no blob below quality \<open>0.8\<close>.\<close>

definition weak_env :: env where
  "weak_env =
     sample_env\<lparr>toBlob := (\<lambda>cv ty q. if q < 0.8 then None else toBlob sample_env cv ty q)\<rparr>"

text \<open>A file of 3000000 bytes, one of 4 bytes, and one of 2000000 bytes that does not decode.\<close>

definition photo :: File where
  "photo =
     \<lparr>file_name = ''photo.png'', file_type = ''image/png'', file_lastModified = 0,
      file_data = replicate 3000000 0\<rparr>"

definition icon :: File where
  "icon =
     \<lparr>file_name = ''icon.png'', file_type = ''image/png'', file_lastModified = 0,
      file_data = [137, 80, 78, 71]\<rparr>"

definition broken :: File where
  "broken =
     \<lparr>file_name = ''broken.png'', file_type = [], file_lastModified = 0,
      file_data = replicate 2000000 0\<rparr>"

text \<open>An options object that sets the quality and the budget and leaves the bounds out.\<close>

definition roomy_policy :: options where
  "roomy_policy =
     \<lparr>opt_maxWidth = None, opt_maxHeight = None, opt_quality = Some 0.6,
      opt_maxSizeMB = Some 3\<rparr>"

text \<open>What the sample browser returns for \<open>photo\<close> at quality \<open>0.8\<close>: the retry's blob.\<close>

definition photo_out :: File where
  "photo_out =
     \<lparr>file_name = ''photo.png'', file_type = ''image/png'', file_lastModified = 1700000000000,
      file_data = replicate 1200000 0\<rparr>"

text \<open>What the browser with the weak encoder returns for \<open>photo\<close>: the first blob.\<close>

definition photo_first :: File where
  "photo_first =
     \<lparr>file_name = ''photo.png'', file_type = ''image/png'', file_lastModified = 1700000000000,
      file_data = replicate 1600000 0\<rparr>"

text \<open>
  Two answers that carry an error: one with a list of one picture as output, one whose
  output is the empty string.
\<close>

definition both_snapshot :: status_response where
  "both_snapshot =
     \<lparr>sr_message = ''done'', sr_status = ''failed'',
      sr_output = Some (OutList [''https://img/1.png'']), sr_error = Some ''boom''\<rparr>"

definition empty_output_snapshot :: status_response where
  "empty_output_snapshot =
     \<lparr>sr_message = [], sr_status = ''failed'',
      sr_output = Some (OutString []), sr_error = Some ''boom''\<rparr>"

text \<open>Responses of the service: an error with a message, one with no body, one without message.\<close>

definition not_found :: response where
  "not_found =
     \<lparr>response_status = 404,
      response_body = Some (JObject [(''status'', JString ''error''),
                                     (''message'', JString ''Prediction not found'')])\<rparr>"

definition bad_gateway :: response where
  "bad_gateway = \<lparr>response_status = 502, response_body = None\<rparr>"

definition unavailable :: response where
  "unavailable = \<lparr>response_status = 503, response_body = Some (JObject [])\<rparr>"

section \<open>Properties of the image compression\<close>

lemmas compress_defs =
  compressImage_def reader_onload_def img_onload_def first_callback_def second_callback_def

lemmas double_defs =
  to_double_def round_positive_def binade_def pow2_def round_half_even_def bit_length.simps
  js_div_def

subsection \<open>Rounding\<close>

lemma bit_length_upper: "n < 2 ^ bit_length n"
proof (induction n rule: bit_length.induct)
  case (1 n)
  show ?case
  proof (cases "n = 0")
    case True
    then show ?thesis by (simp add: bit_length.simps)
  next
    case False
    from "1.IH" [OF False] have "n div 2 < 2 ^ bit_length (n div 2)" .
    then have "n < 2 * 2 ^ bit_length (n div 2)" by linarith
    with False show ?thesis by (simp add: bit_length.simps [of n])
  qed
qed

lemma bit_length_lower: "0 < n \<Longrightarrow> 2 ^ (bit_length n - 1) \<le> n"
proof (induction n rule: bit_length.induct)
  case (1 n)
  then have nz: "n \<noteq> 0" by simp
  show ?case
  proof (cases "n div 2 = 0")
    case True
    with nz show ?thesis
      by (simp add: bit_length.simps [of n] bit_length.simps [of 0])
  next
    case False
    then have pos: "0 < n div 2" by simp
    from "1.IH" [OF nz pos] have "2 ^ (bit_length (n div 2) - 1) \<le> n div 2" .
    then have "2 * 2 ^ (bit_length (n div 2) - 1) \<le> n" by linarith
    moreover from False have "bit_length (n div 2) \<noteq> 0"
      by (simp add: bit_length.simps [of "n div 2"])
    then have "2 * 2 ^ (bit_length (n div 2) - 1) = (2::nat) ^ bit_length (n div 2)"
      by (cases "bit_length (n div 2)") simp_all
    ultimately show ?thesis using nz by (simp add: bit_length.simps [of n])
  qed
qed

text \<open>\<open>binade x\<close> is the exponent of the power of two at or just below \<open>x\<close>.\<close>

lemma binade_bounds:
  assumes "0 < x"
  shows "pow2 (binade x) \<le> x" and "x < pow2 (binade x + 1)"
proof -
  have "pow2 (binade x) \<le> x \<and> x < pow2 (binade x + 1)"
  proof (cases "1 \<le> x")
    case True
    let ?n = "nat \<lfloor>x\<rfloor>"
    from True have f: "1 \<le> \<lfloor>x\<rfloor>" by linarith
    then have "0 \<le> \<lfloor>x\<rfloor>" by linarith
    then have rn: "real ?n = of_int \<lfloor>x\<rfloor>" by (rule of_nat_nat)
    from f have n1: "0 < ?n" by linarith
    have n2: "real ?n \<le> x" unfolding rn by linarith
    have n3: "x < real ?n + 1" unfolding rn by linarith
    note n = n1 n2 n3
    from bit_length_lower [OF n(1)] have "real (2 ^ (bit_length ?n - 1)) \<le> real ?n"
      by (rule of_nat_mono)
    then have "(2::real) ^ (bit_length ?n - 1) \<le> real ?n" by simp
    with n(2) have lo: "(2::real) ^ (bit_length ?n - 1) \<le> x" by linarith
    from bit_length_upper [of ?n] have "Suc ?n \<le> 2 ^ bit_length ?n" by (rule Suc_leI)
    then have "real (Suc ?n) \<le> real (2 ^ bit_length ?n)" by (rule of_nat_mono)
    then have "real ?n + 1 \<le> (2::real) ^ bit_length ?n" by simp
    with n(3) have hi: "x < (2::real) ^ bit_length ?n" by linarith
    from n(1) have b: "0 < bit_length ?n" by (simp add: bit_length.simps [of ?n])
    from True lo hi b show ?thesis
      by (simp add: binade_def pow2_def nat_diff_distrib)
  next
    case False
    let ?m = "nat (\<lceil>1 / x\<rceil> - 1)"
    from False assms have inv: "1 < 1 / x" by simp
    then have c: "2 \<le> \<lceil>1 / x\<rceil>" by linarith
    from c have "0 \<le> \<lceil>1 / x\<rceil> - 1" by linarith
    then have "real ?m = of_int (\<lceil>1 / x\<rceil> - 1)" by (rule of_nat_nat)
    then have rm: "real ?m = of_int \<lceil>1 / x\<rceil> - 1" by simp
    from c have m1: "0 < ?m" by linarith
    have m2: "real ?m < 1 / x" unfolding rm by linarith
    have m3: "1 / x \<le> real ?m + 1" unfolding rm by linarith
    note m = m1 m2 m3
    from bit_length_lower [OF m(1)] have "real (2 ^ (bit_length ?m - 1)) \<le> real ?m"
      by (rule of_nat_mono)
    then have "(2::real) ^ (bit_length ?m - 1) \<le> real ?m" by simp
    with m(2) have a: "(2::real) ^ (bit_length ?m - 1) < 1 / x" by linarith
    from bit_length_upper [of ?m] have "Suc ?m \<le> 2 ^ bit_length ?m" by (rule Suc_leI)
    then have "real (Suc ?m) \<le> real (2 ^ bit_length ?m)" by (rule of_nat_mono)
    then have "real ?m + 1 \<le> (2::real) ^ bit_length ?m" by simp
    with m(3) have b: "1 / x \<le> (2::real) ^ bit_length ?m" by linarith
    from m(1) have k: "0 < bit_length ?m" by (simp add: bit_length.simps [of ?m])
    from b assms have lo: "1 / 2 ^ bit_length ?m \<le> x"
      by (simp add: field_simps)
    from a assms have hi: "x < 1 / 2 ^ (bit_length ?m - 1)"
      by (simp add: field_simps)
    show ?thesis
    proof (cases "bit_length ?m = 1")
      case True
      with False lo hi show ?thesis by (simp add: binade_def pow2_def)
    next
      case False
      with k have "1 < bit_length ?m" by simp
      then have "nat (int (bit_length ?m) - 1) = bit_length ?m - 1" by simp
      with \<open>\<not> 1 \<le> x\<close> lo hi \<open>1 < bit_length ?m\<close> show ?thesis
        by (simp add: binade_def pow2_def)
    qed
  qed
  then show "pow2 (binade x) \<le> x" and "x < pow2 (binade x + 1)" by simp_all
qed

text \<open>
  Rounding to the nearest integer moves a number by at most a half, so rounding to a
  double moves a positive number by at most half the spacing of the doubles around it.
\<close>

lemma round_half_even_near: "\<bar>of_int (round_half_even m) - m\<bar> \<le> 1 / 2"
  unfolding round_half_even_def Let_def by (auto split: if_splits)

lemma round_half_even_nonneg: "0 \<le> m \<Longrightarrow> 0 \<le> round_half_even m"
  unfolding round_half_even_def Let_def by (auto split: if_splits) 

lemma pow2_pos: "0 < pow2 k"
  by (simp add: pow2_def)

lemma pow2_powi: "pow2 k = 2 powi k"
  by (simp add: pow2_def power_int_def power_inverse field_simps)

lemma pow2_mono: "k \<le> l \<Longrightarrow> pow2 k \<le> pow2 l"
  by (simp add: pow2_powi power_int_increasing)

lemma round_positive_near:
  assumes "0 < a"
  shows "\<bar>round_positive a - a\<bar> \<le> pow2 (max (binade a) (- 1022) - 52) / 2"
proof -
  let ?ulp = "pow2 (max (binade a) (- 1022) - 52)"
  have pos: "0 < ?ulp" by (rule pow2_pos)
  have "round_positive a - a = (of_int (round_half_even (a / ?ulp)) - a / ?ulp) * ?ulp"
    using pos by (simp add: round_positive_def Let_def field_simps)
  then have "\<bar>round_positive a - a\<bar> = \<bar>of_int (round_half_even (a / ?ulp)) - a / ?ulp\<bar> * ?ulp"
    using pos by (simp add: abs_mult)
  also have "\<dots> \<le> (1 / 2) * ?ulp"
    using round_half_even_near [of "a / ?ulp"] pos by (intro mult_right_mono) simp_all
  finally show ?thesis by simp
qed

lemma round_positive_nonneg: "0 < a \<Longrightarrow> 0 \<le> round_positive a"
  using pow2_pos [of "max (binade a) (- 1022) - 52"]
  by (simp add: round_positive_def Let_def round_half_even_nonneg)

text \<open>The spacing is small for small numbers: the exponent is bounded by the size.\<close>

lemma bit_length_le: "n < 2 ^ k \<Longrightarrow> bit_length n \<le> k"
proof (induction n arbitrary: k rule: bit_length.induct)
  case (1 n)
  show ?case
  proof (cases "n = 0")
    case True
    then show ?thesis by (simp add: bit_length.simps)
  next
    case False
    with "1.prems" obtain j where k: "k = Suc j"
      by (cases k) auto
    with "1.prems" have "n div 2 < 2 ^ j" by auto
    from "1.IH" [OF False this] False k show ?thesis
      by (simp add: bit_length.simps [of n])
  qed
qed

lemma binade_below_one: "0 < a \<Longrightarrow> a < 1 \<Longrightarrow> binade a \<le> - 1"
proof -
  assume a: "0 < a" "a < 1"
  then have "1 < 1 / a" by simp
  then have "2 \<le> \<lceil>1 / a\<rceil>" by linarith
  then have "nat (\<lceil>1 / a\<rceil> - 1) \<noteq> 0" by simp
  then have "1 \<le> bit_length (nat (\<lceil>1 / a\<rceil> - 1))"
    by (simp add: bit_length.simps [of "nat (\<lceil>1 / a\<rceil> - 1)"])
  with a show ?thesis by (simp add: binade_def)
qed

lemma binade_below: "0 < a \<Longrightarrow> a < 2 ^ k \<Longrightarrow> 0 < k \<Longrightarrow> binade a \<le> int k - 1"
proof (cases "1 \<le> a")
  case True
  assume a: "a < 2 ^ k"
  have "real_of_int \<lfloor>a\<rfloor> \<le> a" by simp
  with a have "real_of_int \<lfloor>a\<rfloor> < 2 ^ k" by linarith
  then have "\<lfloor>a\<rfloor> < 2 ^ k" by (metis of_int_less_iff of_int_numeral of_int_power)
  with True have "nat \<lfloor>a\<rfloor> < 2 ^ k"
    by (simp add: nat_less_iff)
  from bit_length_le [OF this] True show ?thesis
    by (simp add: binade_def)
next
  case False
  assume "0 < a" "0 < k"
  with False binade_below_one [of a] show ?thesis by simp
qed


text \<open>
  A quotient below 1 rounds to a double below \<open>1 + 2 ^ - 54\<close>, and a number below \<open>2 ^ 31\<close>
  is rounded with an error of at most \<open>2 ^ - 23\<close>.
\<close>

lemma round_below_one:
  assumes "0 < a" "a < 1"
  shows "0 \<le> round_positive a" and "round_positive a < 1 + 1 / 2 ^ 54"
proof -
  show "0 \<le> round_positive a" using assms(1) by (rule round_positive_nonneg)
  from binade_below_one [OF assms] have "max (binade a) (- 1022) - 52 \<le> - 53" by simp
  from pow2_mono [OF this] have "pow2 (max (binade a) (- 1022) - 52) \<le> 1 / 2 ^ 53"
    by (simp add: pow2_def)
  with round_positive_near [OF assms(1)] have "\<bar>round_positive a - a\<bar> \<le> 1 / 2 ^ 54"
    by simp
  with assms(2) show "round_positive a < 1 + 1 / 2 ^ 54" by linarith
qed

lemma round_small:
  assumes "0 < a" "a < 2 ^ 31"
  shows "\<bar>round_positive a - a\<bar> \<le> 1 / 2 ^ 23"
proof -
  from binade_below [OF assms, simplified] have "max (binade a) (- 1022) - 52 \<le> - 22" by simp
  from pow2_mono [OF this] have "pow2 (max (binade a) (- 1022) - 52) \<le> 1 / 2 ^ 22"
    by (simp add: pow2_def)
  with round_positive_near [OF assms(1)] show ?thesis by simp
qed

lemma pow2_1024_large: "2 ^ 31 \<le> pow2 1024"
proof -
  have "pow2 31 \<le> pow2 1024" by (rule pow2_mono) simp
  then show ?thesis by (simp add: pow2_def)
qed

lemma to_double_quotient:
  assumes "0 < q" "q < 1"
  shows "\<exists>r. to_double q = Fin r \<and> 0 \<le> r \<and> r < 1 + 1 / 2 ^ 54"
proof -
  note r = round_below_one [OF assms]
  from r(2) have "round_positive q < 2 ^ 31" by simp
  with pow2_1024_large have "\<not> pow2 1024 \<le> round_positive q" by linarith
  with assms r show ?thesis by (simp add: to_double_def)
qed

lemma to_double_positive:
  assumes "0 < q"
  shows "to_double q = PosInf \<or> (\<exists>r. to_double q = Fin r \<and> 0 \<le> r)"
  using assms round_positive_nonneg [OF assms] by (simp add: to_double_def)

lemma math_min_Fin_left:
  assumes "0 \<le> a" and "b = PosInf \<or> (\<exists>r. b = Fin r \<and> 0 \<le> r)"
  shows "\<exists>r. math_min (Fin a) b = Fin r \<and> 0 \<le> r \<and> r \<le> a"
  using assms by auto

lemma math_min_Fin_right:
  assumes "0 \<le> a" and "b = PosInf \<or> (\<exists>r. b = Fin r \<and> 0 \<le> r)"
  shows "\<exists>r. math_min b (Fin a) = Fin r \<and> 0 \<le> r \<and> r \<le> a"
  using assms by auto

text \<open>
  With positive bounds and a picture that exceeds one of them, the ratio is a finite
  double between 0 and \<open>1 + 2 ^ - 54\<close>.
\<close>

lemma ratio_finite:
  assumes "0 < w" "0 < h" "0 < maxWidth" "0 < maxHeight"
    and "real w > maxWidth \<or> real h > maxHeight"
  shows "\<exists>r. math_min (js_div maxWidth (real w)) (js_div maxHeight (real h)) = Fin r \<and>
             0 \<le> r \<and> r < 1 + 1 / 2 ^ 54"
proof -
  from assms have qa: "0 < maxWidth / real w" and qb: "0 < maxHeight / real h"
    by simp_all
  from assms(1,2) have da: "js_div maxWidth (real w) = to_double (maxWidth / real w)"
    and db: "js_div maxHeight (real h) = to_double (maxHeight / real h)"
    by (simp_all add: js_div_def)
  from assms(5) show ?thesis
  proof
    assume "real w > maxWidth"
    with assms(1) have "maxWidth / real w < 1" by simp
    from to_double_quotient [OF qa this] obtain a
      where a: "to_double (maxWidth / real w) = Fin a" "0 \<le> a" "a < 1 + 1 / 2 ^ 54"
      by blast
    from math_min_Fin_left [OF a(2) to_double_positive [OF qb]] a(1,3) da db
    show ?thesis by fastforce
  next
    assume "real h > maxHeight"
    with assms(2) have "maxHeight / real h < 1" by simp
    from to_double_quotient [OF qb this] obtain b
      where b: "to_double (maxHeight / real h) = Fin b" "0 \<le> b" "b < 1 + 1 / 2 ^ 54"
      by blast
    from math_min_Fin_right [OF b(2) to_double_positive [OF qa]] b(1,3) da db
    show ?thesis by fastforce
  qed
qed

text \<open>
  The canvas dimension got from \<open>w * r\<close>: the product is rounded to a double and then
  truncated to whole pixels, so it lies within \<open>1 + 2 ^ - 23\<close> below and \<open>2 ^ - 23\<close> above
  the exact product.
\<close>

lemma scaled_pixels:
  assumes r: "0 \<le> r" "r < 1 + 1 / 2 ^ 54" and w: "0 < w" "w \<le> 2147483647"
  shows "real w * r - 1 - 1 / 2 ^ 23 < real (reflected dflt (js_mul (real w) (Fin r)))"
    and "real (reflected dflt (js_mul (real w) (Fin r))) \<le> real w * r + 1 / 2 ^ 23"
proof -
  let ?x = "real w * r"
  have x0: "0 \<le> ?x" using r(1) by simp
  have "real w * r \<le> real w * (1 + 1 / 2 ^ 54)"
    using r(2) by (intro mult_left_mono) simp_all
  also have "\<dots> = real w + real w / 2 ^ 54" by (simp add: algebra_simps)
  also have "\<dots> \<le> 2147483647 + 2147483647 / 2 ^ 54"
    using w(2) by (intro add_mono divide_right_mono) simp_all
  finally have xb: "?x \<le> 2147483647 + 2147483647 / 2 ^ 54" .
  have "real (reflected dflt (js_mul (real w) (Fin r))) \<le> ?x + 1 / 2 ^ 23 \<and>
        ?x - 1 - 1 / 2 ^ 23 < real (reflected dflt (js_mul (real w) (Fin r)))"
  proof (cases "?x = 0")
    case True
    then have "js_mul (real w) (Fin r) = Fin 0" by (simp add: to_double_def)
    then have z: "real (reflected dflt (js_mul (real w) (Fin r))) = 0"
      by (simp add: reflected_def)
    show ?thesis unfolding z True by simp
  next
    case False
    with x0 have pos: "0 < ?x" by (simp only: less_le) simp
    from xb have lt: "?x < 2 ^ 31" by simp
    let ?y = "round_positive ?x"
    note near = round_small [OF pos lt]
    have y0: "0 \<le> ?y" using pos by (rule round_positive_nonneg)
    from xb have xb': "?x \<le> 2147483647 + 1 / 2" by simp
    from near have near': "\<bar>?y - ?x\<bar> \<le> 1 / 8388608" by simp
    from near' xb' have yb: "?y < 2147483648" by linarith
    with pow2_1024_large have "\<not> pow2 1024 \<le> ?y" by simp
    with pos False have td: "js_mul (real w) (Fin r) = Fin ?y" by (simp add: to_double_def)
    from y0 have f0: "0 \<le> \<lfloor>?y\<rfloor>" by simp
    from yb have fb: "\<lfloor>?y\<rfloor> < 2147483648" by (simp add: floor_less_iff)
    from f0 fb have md: "\<lfloor>?y\<rfloor> mod 2 ^ 32 = \<lfloor>?y\<rfloor>" by simp
    from y0 md have ul: "to_unsigned_long (Fin ?y) = nat \<lfloor>?y\<rfloor>" by simp
    from fb f0 have "nat \<lfloor>?y\<rfloor> \<le> 2147483647" by linarith
    with ul td have "reflected dflt (js_mul (real w) (Fin r)) = nat \<lfloor>?y\<rfloor>"
      by (simp add: reflected_def)
    with f0 have c: "real (reflected dflt (js_mul (real w) (Fin r))) = of_int \<lfloor>?y\<rfloor>"
      by simp
    have "of_int \<lfloor>?y\<rfloor> \<le> ?y" "?y - 1 < of_int \<lfloor>?y\<rfloor>" by linarith+
    with near' have "of_int \<lfloor>?y\<rfloor> \<le> ?x + 1 / 8388608 \<and> ?x - 1 - 1 / 8388608 < of_int \<lfloor>?y\<rfloor>"
      by linarith
    then show ?thesis unfolding c by simp
  qed
  then show "real w * r - 1 - 1 / 2 ^ 23 < real (reflected dflt (js_mul (real w) (Fin r)))"
    and "real (reflected dflt (js_mul (real w) (Fin r))) \<le> real w * r + 1 / 2 ^ 23"
    by simp_all
qed


subsection \<open>Sample pictures\<close>

text \<open>
  A picture of 4000 by 2000 under the bounds 1920 by 1920: the ratio is the double nearest
  to 0.48, and both products round to whole numbers.
\<close>

lemma sample_ratio:
  "math_min (js_div 1920 4000) (js_div 1920 2000) = Fin (1080863910568919 / 2251799813685248)"
  by (simp add: double_defs Let_def)

lemma sample_dimensions: "new_dimensions 4000 2000 1920 1920 = (Fin 1920, Fin 960)"
proof -
  have "js_mul 4000 (Fin (1080863910568919 / 2251799813685248)) = Fin 1920"
    and "js_mul 2000 (Fin (1080863910568919 / 2251799813685248)) = Fin 960"
    by (simp_all add: double_defs Let_def)
  with sample_ratio show ?thesis
    by (simp add: new_dimensions_def Let_def)
qed

lemma sample_sized:
  "img_width img = 4000 \<Longrightarrow> img_height img = 2000 \<Longrightarrow>
     sized_canvas img 1920 1920 =
       \<lparr>canvas_width = 1920, canvas_height = 960, canvas_drawn = None\<rparr>"
  by (simp add: sized_canvas_def sample_dimensions reflected_def)

lemma sample_drawn:
  "img_width img = 4000 \<Longrightarrow> img_height img = 2000 \<Longrightarrow>
     drawn_canvas img 1920 1920 =
       \<lparr>canvas_width = 1920, canvas_height = 960,
        canvas_drawn = Some (img, Fin 1920, Fin 960)\<rparr>"
  by (simp add: drawn_canvas_def sample_sized sample_dimensions)

text \<open>
  A picture of 2148 by 1000 under the same bounds: the product \<open>2148 * ratio\<close> rounds to
  the double just below 1920, and the canvas is 1919 by 893.
\<close>

lemma narrow_ratio:
  "math_min (js_div 1920 2148) (js_div 1920 1000) = Fin (1006390978183351 / 1125899906842624)"
  by (simp add: double_defs Let_def)

lemma narrow_dimensions:
  "new_dimensions 2148 1000 1920 1920 =
     (Fin (8444249301319679 / 4398046511104), Fin (3931214758528715 / 4398046511104))"
proof -
  have "js_mul 2148 (Fin (1006390978183351 / 1125899906842624)) =
          Fin (8444249301319679 / 4398046511104)"
    and "js_mul 1000 (Fin (1006390978183351 / 1125899906842624)) =
          Fin (3931214758528715 / 4398046511104)"
    by (simp_all add: double_defs Let_def)
  with narrow_ratio show ?thesis
    by (simp add: new_dimensions_def Let_def)
qed

lemma narrow_canvas:
  "img_width img = 2148 \<Longrightarrow> img_height img = 1000 \<Longrightarrow>
     drawn_canvas img 1920 1920 =
       \<lparr>canvas_width = 1919, canvas_height = 893,
        canvas_drawn = Some (img, Fin (8444249301319679 / 4398046511104),
                             Fin (3931214758528715 / 4398046511104))\<rparr>"
  by (simp add: drawn_canvas_def sized_canvas_def narrow_dimensions reflected_def)

lemma drawn_canvas_eq:
  "drawn_canvas img maxWidth maxHeight =
     \<lparr>canvas_width =
        reflected 300 (fst (new_dimensions (img_width img) (img_height img) maxWidth maxHeight)),
      canvas_height =
        reflected 150 (snd (new_dimensions (img_width img) (img_height img) maxWidth maxHeight)),
      canvas_drawn =
        Some (img, fst (new_dimensions (img_width img) (img_height img) maxWidth maxHeight),
              snd (new_dimensions (img_width img) (img_height img) maxWidth maxHeight))\<rparr>"
  by (simp add: drawn_canvas_def sized_canvas_def split: prod.splits)

lemma reflected_whole: "n \<le> 2147483647 \<Longrightarrow> reflected dflt (Fin (real n)) = n"
proof -
  assume n: "n \<le> 2147483647"
  then have "int n mod 2 ^ 32 = int n" by simp
  then have "to_unsigned_long (Fin (real n)) = n" by simp
  with n show ?thesis by (simp add: reflected_def)
qed


lemmas sample_defs =
  sample_env_def weak_env_def photo_def icon_def broken_def photo_out_def max_bytes_def
  output_type_def new_File_def file_size_def blob_size_def encodes_def

text \<open>
  The sample browser on \<open>photo\<close> with the default policy: the picture is scaled to 1920 by
  960, encoded at 0.8 (1600000 bytes) and again at 0.6 (1200000 bytes).
\<close>

lemma photo_run:
  "compressImage sample_env photo 1920 1920 0.8 1 =
     ([ReadFile, DecodeImage, CreateCanvas (Fin 1920) (Fin 960), DrawImage (Fin 1920) (Fin 960),
       Encode ''image/png'' 0.8, Encode ''image/png'' 0.6], Resolve photo_out)"
  by (simp add: compress_defs sample_defs sample_dimensions sample_sized sample_drawn Let_def)

lemma broken_run:
  "compressImage sample_env broken 1920 1920 0.8 1 =
     ([ReadFile, DecodeImage], Reject FailedToLoadImage)"
  by (simp add: compress_defs sample_defs Let_def)

lemma icon_small: "real (file_size icon) \<le> 1 * 1024 * 1024"
  by (simp add: file_size_def icon_def)

lemma photo_large: "real (file_size photo) > 1 * 1024 * 1024"
  by (simp add: file_size_def photo_def)

text \<open>
  C3. An asset whose byte length is at or below \<open>maxSizeMB * 1024 * 1024\<close> is returned
  unchanged: the promise resolves with the very same file, and no browser operation (no
  read, no decode, no canvas, no encode) is performed.
\<close>

theorem fast_path_identity:
  assumes "real (file_size f) \<le> maxSizeMB * 1024 * 1024"
  shows "compressImage e f maxWidth maxHeight quality maxSizeMB = ([], Resolve f)"
  using assms by (simp add: compressImage_def max_bytes_def)

theorem fast_path_identity_witness:
  "real (file_size icon) \<le> 1 * 1024 * 1024 \<and>
   compressImage sample_env icon 1920 1920 0.8 1 = ([], Resolve icon)"
  using fast_path_identity [OF icon_small] icon_small by simp

text \<open>
  C2. For an input over the byte budget that is read, decoded and drawn, and whose first
  encode yields a blob \<open>b1\<close>: a second encode is made exactly when \<open>b1\<close> is larger than
  \<open>maxSizeMB * 1024 * 1024\<close> and \<open>quality > 0.3\<close>, at quality \<open>max(0.3, quality - 0.2)\<close>, and
  nothing is encoded after it; the promise resolves with the second blob whatever its
  size, and with \<open>b1\<close> when the second encode yields none. At \<open>quality = 0.3\<close> there is one
  encode only. Whatever the input and the browser, a call makes at most two encode
  attempts, and at most one at \<open>quality = 0.3\<close>.
\<close>

theorem two_pass_encoding:
  assumes over: "real (file_size f) > maxSizeMB * 1024 * 1024"
    and rd: "readAsDataURL e f = Some url"
    and ld: "loadImage e url = Some img"
    and ctx: "getContext e (sized_canvas img maxWidth maxHeight)"
    and enc: "toBlob e (drawn_canvas img maxWidth maxHeight) (output_type f) quality = Some b1"
  shows "encodes (fst (compressImage e f maxWidth maxHeight quality maxSizeMB)) =
           (if real (blob_size b1) > maxSizeMB * 1024 * 1024 \<and> quality > 0.3
            then [Encode (output_type f) quality,
                  Encode (output_type f) (max 0.3 (quality - 0.2))]
            else [Encode (output_type f) quality]) \<and>
         snd (compressImage e f maxWidth maxHeight quality maxSizeMB) =
           Resolve (new_File
             (if real (blob_size b1) > maxSizeMB * 1024 * 1024 \<and> quality > 0.3
              then (case toBlob e (drawn_canvas img maxWidth maxHeight) (output_type f)
                           (max 0.3 (quality - 0.2)) of
                      None \<Rightarrow> b1
                    | Some b2 \<Rightarrow> b2)
              else b1)
             (file_name f) (output_type f) (dateNow e f)) \<and>
         (quality = 0.3 \<longrightarrow>
            encodes (fst (compressImage e f maxWidth maxHeight quality maxSizeMB)) =
              [Encode (output_type f) 0.3]) \<and>
         length (encodes (fst (compressImage e' f' maxWidth' maxHeight' quality' maxSizeMB'))) \<le> 2 \<and>
         length (encodes (fst (compressImage e' f' maxWidth' maxHeight' 0.3 maxSizeMB'))) \<le> 1"
proof -
  have "length (encodes (fst (compressImage e' f' maxWidth' maxHeight' q maxSizeMB')))
          \<le> (if q > 0.3 then 2 else 1)" for q
    by (simp add: compress_defs encodes_def Let_def split: option.splits prod.splits)
  from this [of quality'] this [of "0.3"]
  have general:
    "length (encodes (fst (compressImage e' f' maxWidth' maxHeight' quality' maxSizeMB'))) \<le> 2"
    "length (encodes (fst (compressImage e' f' maxWidth' maxHeight' 0.3 maxSizeMB'))) \<le> 1"
    by (simp_all split: if_splits)
  from assms have
    "encodes (fst (compressImage e f maxWidth maxHeight quality maxSizeMB)) =
       (if real (blob_size b1) > maxSizeMB * 1024 * 1024 \<and> quality > 0.3
        then [Encode (output_type f) quality,
              Encode (output_type f) (max 0.3 (quality - 0.2))]
        else [Encode (output_type f) quality])"
    by (simp add: compress_defs max_bytes_def encodes_def Let_def split: prod.splits)
  moreover from assms have
    "snd (compressImage e f maxWidth maxHeight quality maxSizeMB) =
       Resolve (new_File
         (if real (blob_size b1) > maxSizeMB * 1024 * 1024 \<and> quality > 0.3
          then (case toBlob e (drawn_canvas img maxWidth maxHeight) (output_type f)
                       (max 0.3 (quality - 0.2)) of
                  None \<Rightarrow> b1
                | Some b2 \<Rightarrow> b2)
          else b1)
         (file_name f) (output_type f) (dateNow e f))"
    by (simp add: compress_defs max_bytes_def Let_def split: option.splits prod.splits)
  ultimately show ?thesis
    using general by simp
qed

text \<open>
  The sample browser on \<open>photo\<close> at quality 0.8 encodes twice, at 0.8 and at 0.6, and the
  blob of the second encode is returned although it is over the budget. The browser whose
  encoder gives nothing below 0.8 makes the same two attempts and returns the blob of the
  first.
\<close>

theorem two_pass_encoding_witness:
  "real (file_size photo) > 1 * 1024 * 1024 \<and>
   readAsDataURL sample_env photo = Some ''photo.png'' \<and>
   loadImage sample_env ''photo.png'' =
     Some \<lparr>img_width = 4000, img_height = 2000, img_src = ''photo.png''\<rparr> \<and>
   getContext sample_env
     (sized_canvas \<lparr>img_width = 4000, img_height = 2000, img_src = ''photo.png''\<rparr> 1920 1920) \<and>
   toBlob sample_env
     (drawn_canvas \<lparr>img_width = 4000, img_height = 2000, img_src = ''photo.png''\<rparr> 1920 1920)
     (output_type photo) 0.8 =
     Some \<lparr>blob_data = replicate 1600000 0, blob_type = ''image/png''\<rparr> \<and>
   encodes (fst (compressImage sample_env photo 1920 1920 0.8 1)) =
     [Encode ''image/png'' 0.8, Encode ''image/png'' 0.6] \<and>
   snd (compressImage sample_env photo 1920 1920 0.8 1) = Resolve photo_out \<and>
   real (file_size photo_out) > 1 * 1024 * 1024 \<and>
   encodes (fst (compressImage weak_env photo 1920 1920 0.8 1)) =
     [Encode ''image/png'' 0.8, Encode ''image/png'' 0.6] \<and>
   snd (compressImage weak_env photo 1920 1920 0.8 1) = Resolve photo_first"
proof -
  let ?img = "\<lparr>img_width = 4000, img_height = 2000, img_src = ''photo.png''\<rparr>"
  let ?b1 = "\<lparr>blob_data = replicate 1600000 0, blob_type = ''image/png''\<rparr>"
  have rd: "readAsDataURL sample_env photo = Some ''photo.png''"
    and rd': "readAsDataURL weak_env photo = Some ''photo.png''"
    by (simp_all add: sample_env_def weak_env_def photo_def)
  have ld: "loadImage sample_env ''photo.png'' = Some ?img"
    and ld': "loadImage weak_env ''photo.png'' = Some ?img"
    by (simp_all add: sample_env_def weak_env_def)
  have ctx: "getContext sample_env (sized_canvas ?img 1920 1920)"
    and ctx': "getContext weak_env (sized_canvas ?img 1920 1920)"
    by (simp_all add: sample_env_def weak_env_def)
  have enc: "toBlob sample_env (drawn_canvas ?img 1920 1920) (output_type photo) 0.8 = Some ?b1"
    and enc': "toBlob weak_env (drawn_canvas ?img 1920 1920) (output_type photo) 0.8 = Some ?b1"
    by (simp_all add: sample_env_def weak_env_def output_type_def photo_def sample_drawn)
  have second:
    "toBlob sample_env (drawn_canvas ?img 1920 1920) (output_type photo) (max 0.3 (0.8 - 0.2)) =
       Some \<lparr>blob_data = replicate 1200000 0, blob_type = ''image/png''\<rparr>"
    and second':
    "toBlob weak_env (drawn_canvas ?img 1920 1920) (output_type photo) (max 0.3 (0.8 - 0.2)) =
       None"
    by (simp_all add: sample_env_def weak_env_def output_type_def photo_def sample_drawn)
  have big: "real (file_size photo_out) > 1 * 1024 * 1024"
    by (simp add: file_size_def photo_out_def)
  from two_pass_encoding [OF photo_large rd ld ctx enc] second
  have "encodes (fst (compressImage sample_env photo 1920 1920 0.8 1)) =
          [Encode ''image/png'' 0.8, Encode ''image/png'' 0.6]"
    and "snd (compressImage sample_env photo 1920 1920 0.8 1) = Resolve photo_out"
    by (simp_all add: blob_size_def output_type_def photo_def new_File_def photo_out_def
        sample_env_def)
  moreover from two_pass_encoding [OF photo_large rd' ld' ctx' enc'] second'
  have "encodes (fst (compressImage weak_env photo 1920 1920 0.8 1)) =
          [Encode ''image/png'' 0.8, Encode ''image/png'' 0.6]"
    and "snd (compressImage weak_env photo 1920 1920 0.8 1) = Resolve photo_first"
    by (simp_all add: blob_size_def output_type_def photo_def new_File_def photo_first_def
        sample_env_def weak_env_def)
  ultimately show ?thesis
    using photo_large rd ld ctx enc big by simp
qed

text \<open>
  C1 as stated fails. With the default quality 0.8 the sample browser encodes \<open>photo\<close> at
  0.8 and at 0.6; the result is over the budget of 1 MiB, and no encode was made at the
  floor 0.3.
\<close>

theorem best_effort_counterexample:
  "(0::real) < 0.8 \<and> (0.8::real) \<le> 1 \<and> (0::real) < 1 \<and>
   snd (compressImage sample_env photo 1920 1920 0.8 1) = Resolve photo_out \<and>
   real (file_size photo_out) > 1 * 1024 * 1024 \<and>
   \<not> floor_reached (fst (compressImage sample_env photo 1920 1920 0.8 1))"
  using photo_run by (simp add: photo_out_def file_size_def floor_reached_def)

text \<open>
  The sample browser on \<open>photo\<close> with a budget of half a MiB, at any quality above 0.5:
  both blobs are over the budget, the retry is at \<open>quality - 0.2\<close>, above the floor, and its
  blob is returned.
\<close>

lemma photo_above_half:
  assumes q: "0.5 < q"
  shows "compressImage sample_env photo 1920 1920 q (1 / 2) =
     ([ReadFile, DecodeImage, CreateCanvas (Fin 1920) (Fin 960), DrawImage (Fin 1920) (Fin 960),
       Encode ''image/png'' q, Encode ''image/png'' (q - 0.2)],
      Resolve \<lparr>file_name = ''photo.png'', file_type = ''image/png'',
               file_lastModified = 1700000000000,
               file_data = replicate (nat \<lfloor>(q - 0.2) * 2000000\<rfloor>) 0\<rparr>)"
    and "600000 \<le> nat \<lfloor>(q - 0.2) * 2000000\<rfloor>"
proof -
  from q have "(1000000::real) \<le> q * 2000000" by simp
  then have "(1000000::int) \<le> \<lfloor>q * 2000000\<rfloor>" by (simp add: le_floor_iff)
  then have first: "524288 < real (nat \<lfloor>q * 2000000\<rfloor>)" by linarith
  from q have "(600000::real) \<le> (q - 0.2) * 2000000" by simp
  then have "(600000::int) \<le> \<lfloor>(q - 0.2) * 2000000\<rfloor>" by (simp add: le_floor_iff)
  then show second: "600000 \<le> nat \<lfloor>(q - 0.2) * 2000000\<rfloor>" by linarith
  from q have retry: "max 0.3 (q - 0.2) = q - 0.2" "0.3 < q" by simp_all
  from first retry show "compressImage sample_env photo 1920 1920 q (1 / 2) =
     ([ReadFile, DecodeImage, CreateCanvas (Fin 1920) (Fin 960), DrawImage (Fin 1920) (Fin 960),
       Encode ''image/png'' q, Encode ''image/png'' (q - 0.2)],
      Resolve \<lparr>file_name = ''photo.png'', file_type = ''image/png'',
               file_lastModified = 1700000000000,
               file_data = replicate (nat \<lfloor>(q - 0.2) * 2000000\<rfloor>) 0\<rparr>)"
    by (simp add: compress_defs sample_defs sample_dimensions sample_sized sample_drawn Let_def)
qed

text \<open>
  C1, amended. Whatever the input, the policy and the browser:
  \<^item> the promise rejects exactly when the file is over the budget and the browser fails to
    read it, to decode it, to give a canvas context or to produce the first blob; a size
    never makes it reject;
  \<^item> once the first encode has produced a blob, the promise resolves with the best-effort
    result: that blob, or, when it is over the budget and \<open>quality > 0.3\<close>, the blob of the
    one retry at \<open>max(0.3, quality - 0.2)\<close> whatever its size (the first blob again when the
    retry produces none);
  \<^item> the returned asset is within \<open>maxSizeMB * 1024 * 1024\<close> bytes unless the encode
    attempts the program allows itself are used up (the retry was made, or the quality is
    at most 0.3 and none is allowed);
  \<^item> when \<open>quality\<close> is at most 0.5 the retry is at the floor, so the returned asset is within
    the budget unless an encode at 0.3 or below was made;
  \<^item> when \<open>quality\<close> is above 0.5 no encode is ever made at 0.3 or below: the retry is at
    \<open>quality - 0.2\<close>, above the floor, and its blob is returned even when it is over the
    budget; for every quality in (0.5, 1], the sample browser returns such a result.
\<close>

theorem best_effort_size:
  assumes "compressImage e f maxWidth maxHeight quality maxSizeMB = (evs, res)"
  shows "((\<exists>err. res = Reject err) \<longleftrightarrow>
            real (file_size f) > maxSizeMB * 1024 * 1024 \<and>
            (\<forall>url img. readAsDataURL e f = Some url \<and> loadImage e url = Some img \<and>
               getContext e (sized_canvas img maxWidth maxHeight) \<longrightarrow>
               toBlob e (drawn_canvas img maxWidth maxHeight) (output_type f) quality = None)) \<and>
         (real (file_size f) > maxSizeMB * 1024 * 1024 \<and> readAsDataURL e f = Some url \<and>
          loadImage e url = Some img \<and> getContext e (sized_canvas img maxWidth maxHeight) \<and>
          toBlob e (drawn_canvas img maxWidth maxHeight) (output_type f) quality = Some b1 \<longrightarrow>
            res = Resolve (new_File
              (if real (blob_size b1) > maxSizeMB * 1024 * 1024 \<and> quality > 0.3
               then (case toBlob e (drawn_canvas img maxWidth maxHeight) (output_type f)
                            (max 0.3 (quality - 0.2)) of
                       None \<Rightarrow> b1
                     | Some b2 \<Rightarrow> b2)
               else b1)
              (file_name f) (output_type f) (dateNow e f))) \<and>
         (\<forall>out. res = Resolve out \<longrightarrow>
            real (file_size out) \<le> maxSizeMB * 1024 * 1024 \<or> attempts_exhausted quality evs) \<and>
         (\<forall>out. res = Resolve out \<and> quality \<le> 0.5 \<longrightarrow>
            real (file_size out) \<le> maxSizeMB * 1024 * 1024 \<or> floor_reached evs) \<and>
         (0.5 < quality \<longrightarrow>
            \<not> floor_reached evs \<and> max 0.3 (quality - 0.2) = quality - 0.2 \<and>
            0.3 < quality - 0.2 \<and>
            (length (encodes evs) = 2 \<longrightarrow>
               encodes evs = [Encode (output_type f) quality,
                              Encode (output_type f) (quality - 0.2)])) \<and>
         (0.5 < quality \<and> quality \<le> 1 \<longrightarrow>
            (\<exists>out. snd (compressImage sample_env photo 1920 1920 quality (1 / 2)) = Resolve out \<and>
               real (file_size out) > 1 / 2 * 1024 * 1024 \<and>
               \<not> floor_reached (fst (compressImage sample_env photo 1920 1920 quality (1 / 2)))))"
proof -
  have rej: "(\<exists>err. res = Reject err) \<longleftrightarrow>
      real (file_size f) > maxSizeMB * 1024 * 1024 \<and>
      (\<forall>url img. readAsDataURL e f = Some url \<and> loadImage e url = Some img \<and>
         getContext e (sized_canvas img maxWidth maxHeight) \<longrightarrow>
         toBlob e (drawn_canvas img maxWidth maxHeight) (output_type f) quality = None)"
    using assms
    by (auto simp add: compress_defs max_bytes_def Let_def
        split: option.splits if_splits prod.splits)
  have best: "res = Resolve (new_File
        (if real (blob_size b1) > maxSizeMB * 1024 * 1024 \<and> quality > 0.3
         then (case toBlob e (drawn_canvas img maxWidth maxHeight) (output_type f)
                      (max 0.3 (quality - 0.2)) of
                 None \<Rightarrow> b1
               | Some b2 \<Rightarrow> b2)
         else b1)
        (file_name f) (output_type f) (dateNow e f))"
    if "real (file_size f) > maxSizeMB * 1024 * 1024" "readAsDataURL e f = Some url"
      "loadImage e url = Some img" "getContext e (sized_canvas img maxWidth maxHeight)"
      "toBlob e (drawn_canvas img maxWidth maxHeight) (output_type f) quality = Some b1"
    using assms that
    by (auto simp add: compress_defs max_bytes_def Let_def split: option.splits prod.splits)
  have size: "real (file_size out) \<le> maxSizeMB * 1024 * 1024 \<or> attempts_exhausted quality evs"
    if "res = Resolve out" for out
    using assms that
    by (auto simp add: compress_defs max_bytes_def encodes_def attempts_exhausted_def
        file_size_def blob_size_def new_File_def Let_def
        split: option.splits if_splits prod.splits)
  have low: "real (file_size out) \<le> maxSizeMB * 1024 * 1024 \<or> floor_reached evs"
    if "res = Resolve out" "quality \<le> 0.5" for out
    using assms that
    by (auto simp add: compress_defs max_bytes_def floor_reached_def
        file_size_def blob_size_def new_File_def Let_def
        split: option.splits if_splits prod.splits)
  have high: "\<not> floor_reached evs \<and> max 0.3 (quality - 0.2) = quality - 0.2 \<and>
      0.3 < quality - 0.2 \<and>
      (length (encodes evs) = 2 \<longrightarrow>
         encodes evs = [Encode (output_type f) quality, Encode (output_type f) (quality - 0.2)])"
    if "0.5 < quality"
    using assms that
    by (auto simp add: compress_defs max_bytes_def floor_reached_def encodes_def Let_def
        split: option.splits if_splits prod.splits)
  have sample: "\<exists>out. snd (compressImage sample_env photo 1920 1920 quality (1 / 2)) = Resolve out \<and>
      real (file_size out) > 1 / 2 * 1024 * 1024 \<and>
      \<not> floor_reached (fst (compressImage sample_env photo 1920 1920 quality (1 / 2)))"
    if "0.5 < quality" "quality \<le> 1"
  proof -
    note run = photo_above_half [OF that(1)]
    from run(2) that(1) show ?thesis
      unfolding run(1) by (simp add: file_size_def floor_reached_def)
  qed
  from rej best size low high sample show ?thesis
    by blast
qed

text \<open>
  The sample browser on \<open>photo\<close> with the default policy resolves over the budget after two
  attempts; on the file that does not decode it rejects before any encode.
\<close>

theorem best_effort_size_witness:
  "compressImage sample_env photo 1920 1920 0.8 1 =
     ([ReadFile, DecodeImage, CreateCanvas (Fin 1920) (Fin 960), DrawImage (Fin 1920) (Fin 960),
       Encode ''image/png'' 0.8, Encode ''image/png'' 0.6], Resolve photo_out) \<and>
   \<not> real (file_size photo_out) \<le> 1 * 1024 * 1024 \<and>
   attempts_exhausted 0.8
     [ReadFile, DecodeImage, CreateCanvas (Fin 1920) (Fin 960), DrawImage (Fin 1920) (Fin 960),
      Encode ''image/png'' 0.8, Encode ''image/png'' 0.6] \<and>
   \<not> floor_reached
     [ReadFile, DecodeImage, CreateCanvas (Fin 1920) (Fin 960), DrawImage (Fin 1920) (Fin 960),
      Encode ''image/png'' 0.8, Encode ''image/png'' 0.6] \<and>
   compressImage sample_env broken 1920 1920 0.8 1 =
     ([ReadFile, DecodeImage], Reject FailedToLoadImage) \<and>
   real (file_size broken) > 1 * 1024 * 1024 \<and>
   readAsDataURL sample_env broken = Some ''broken.png'' \<and>
   loadImage sample_env ''broken.png'' = None"
proof -
  have big: "\<not> real (file_size photo_out) \<le> 1 * 1024 * 1024"
    by (simp add: file_size_def photo_out_def)
  have half: "(0.5::real) < 0.8" by simp
  note photo = best_effort_size [OF photo_run]
  from photo big
  have "attempts_exhausted 0.8
     [ReadFile, DecodeImage, CreateCanvas (Fin 1920) (Fin 960), DrawImage (Fin 1920) (Fin 960),
      Encode ''image/png'' 0.8, Encode ''image/png'' 0.6]"
    by blast
  moreover from photo half
  have "\<not> floor_reached
     [ReadFile, DecodeImage, CreateCanvas (Fin 1920) (Fin 960), DrawImage (Fin 1920) (Fin 960),
      Encode ''image/png'' 0.8, Encode ''image/png'' 0.6]"
    by blast
  moreover from best_effort_size [OF broken_run]
  have "real (file_size broken) > 1 * 1024 * 1024"
    by blast
  moreover have "readAsDataURL sample_env broken = Some ''broken.png''"
    "loadImage sample_env ''broken.png'' = None"
    by (simp_all add: sample_env_def broken_def)
  ultimately show ?thesis
    using photo_run broken_run big by blast
qed

text \<open>
  C9. The size test comes before any decode. An asset within the byte budget is returned
  unchanged, with no decode at all, even when the picture it holds is wider than
  \<open>maxWidth\<close> or taller than \<open>maxHeight\<close>; a canvas is created and sized, and so the
  dimension bound applied, only for a file over the byte budget.
\<close>

theorem fast_path_before_decode:
  assumes small: "real (file_size f) \<le> maxSizeMB * 1024 * 1024"
    and rd: "readAsDataURL e f = Some url"
    and ld: "loadImage e url = Some img"
    and wide: "real (img_width img) > maxWidth \<or> real (img_height img) > maxHeight"
  shows "compressImage e f maxWidth maxHeight quality maxSizeMB = ([], Resolve f) \<and>
         \<not> list_ex is_decode (fst (compressImage e f maxWidth maxHeight quality maxSizeMB)) \<and>
         (list_ex is_canvas (fst (compressImage e g maxWidth maxHeight quality maxSizeMB)) \<longrightarrow>
            real (file_size g) > maxSizeMB * 1024 * 1024)"
  using small
  by (auto simp add: compressImage_def max_bytes_def)

theorem fast_path_before_decode_witness:
  "real (file_size icon) \<le> 1 * 1024 * 1024 \<and>
   readAsDataURL sample_env icon = Some ''icon.png'' \<and>
   loadImage sample_env ''icon.png'' =
     Some \<lparr>img_width = 4000, img_height = 2000, img_src = ''icon.png''\<rparr> \<and>
   real (img_width \<lparr>img_width = 4000, img_height = 2000, img_src = ''icon.png''\<rparr>) > 1920 \<and>
   compressImage sample_env icon 1920 1920 0.8 1 = ([], Resolve icon) \<and>
   list_ex is_canvas (fst (compressImage sample_env photo 1920 1920 0.8 1)) \<and>
   real (file_size photo) > 1 * 1024 * 1024"
proof -
  let ?img = "\<lparr>img_width = 4000, img_height = 2000, img_src = ''icon.png''\<rparr>"
  have rd: "readAsDataURL sample_env icon = Some ''icon.png''"
    by (simp add: sample_env_def icon_def)
  have ld: "loadImage sample_env ''icon.png'' = Some ?img"
    by (simp add: sample_env_def)
  have wide: "real (img_width ?img) > 1920 \<or> real (img_height ?img) > 1920"
    by simp
  have cv: "list_ex is_canvas (fst (compressImage sample_env photo 1920 1920 0.8 1))"
    using photo_run by simp
  from fast_path_before_decode [OF icon_small rd ld wide, of "0.8" photo] cv
  have "compressImage sample_env icon 1920 1920 0.8 1 = ([], Resolve icon)"
    and "real (file_size photo) > 1 * 1024 * 1024"
    by simp_all
  with icon_small rd ld cv show ?thesis
    by simp
qed

text \<open>
  C4. When the decoded picture is wider than \<open>maxWidth\<close> or taller than \<open>maxHeight\<close>, both
  dimensions are multiplied by the one factor \<open>Math.min(maxWidth / width, maxHeight /
  height)\<close>; a picture within both bounds keeps its dimensions; a picture of 4000 by 2000
  with bounds 1920 by 1920 becomes 1920 by 960. These numbers size the canvas, the picture
  is drawn on it with them, and this canvas is the one both encodes are made from. The
  canvas holds whole pixels: for positive bounds, each of its dimensions is the exact
  product of the picture's dimension and the factor, which has the picture's aspect
  ratio, rounded to a double and cut to a whole number, so it is less than
  \<open>1 + 2 ^ - 23\<close> below and at most \<open>2 ^ - 23\<close> above that product.
\<close>

theorem uniform_scaling:
  "(real w > maxWidth \<or> real h > maxHeight \<longrightarrow>
      new_dimensions w h maxWidth maxHeight =
        (js_mul (real w) (math_min (js_div maxWidth (real w)) (js_div maxHeight (real h))),
         js_mul (real h) (math_min (js_div maxWidth (real w)) (js_div maxHeight (real h))))) \<and>
   (real w \<le> maxWidth \<and> real h \<le> maxHeight \<longrightarrow>
      new_dimensions w h maxWidth maxHeight = (Fin (real w), Fin (real h))) \<and>
   new_dimensions 4000 2000 1920 1920 = (Fin 1920, Fin 960) \<and>
   drawn_canvas img maxWidth maxHeight =
     \<lparr>canvas_width =
        reflected 300 (fst (new_dimensions (img_width img) (img_height img) maxWidth maxHeight)),
      canvas_height =
        reflected 150 (snd (new_dimensions (img_width img) (img_height img) maxWidth maxHeight)),
      canvas_drawn =
        Some (img, fst (new_dimensions (img_width img) (img_height img) maxWidth maxHeight),
              snd (new_dimensions (img_width img) (img_height img) maxWidth maxHeight))\<rparr> \<and>
   (img_width img = 4000 \<and> img_height img = 2000 \<longrightarrow>
      canvas_width (drawn_canvas img 1920 1920) = 1920 \<and>
      canvas_height (drawn_canvas img 1920 1920) = 960) \<and>
   (real (img_width img) \<le> maxWidth \<and> real (img_height img) \<le> maxHeight \<and>
    img_width img \<le> 2147483647 \<and> img_height img \<le> 2147483647 \<longrightarrow>
      canvas_width (drawn_canvas img maxWidth maxHeight) = img_width img \<and>
      canvas_height (drawn_canvas img maxWidth maxHeight) = img_height img) \<and>
   (0 < img_width img \<and> img_width img \<le> 2147483647 \<and>
    0 < img_height img \<and> img_height img \<le> 2147483647 \<and>
    0 < maxWidth \<and> 0 < maxHeight \<and>
    (real (img_width img) > maxWidth \<or> real (img_height img) > maxHeight) \<longrightarrow>
      (\<exists>r. math_min (js_div maxWidth (real (img_width img)))
                      (js_div maxHeight (real (img_height img))) = Fin r \<and>
           0 \<le> r \<and> r < 1 + 1 / 2 ^ 54 \<and>
           real (img_width img) * r - 1 - 1 / 2 ^ 23 <
             real (canvas_width (drawn_canvas img maxWidth maxHeight)) \<and>
           real (canvas_width (drawn_canvas img maxWidth maxHeight)) \<le>
             real (img_width img) * r + 1 / 2 ^ 23 \<and>
           real (img_height img) * r - 1 - 1 / 2 ^ 23 <
             real (canvas_height (drawn_canvas img maxWidth maxHeight)) \<and>
           real (canvas_height (drawn_canvas img maxWidth maxHeight)) \<le>
             real (img_height img) * r + 1 / 2 ^ 23)) \<and>
   (real (file_size f) > maxSizeMB * 1024 * 1024 \<and> readAsDataURL e f = Some url \<and>
    loadImage e url = Some img \<and> getContext e (sized_canvas img maxWidth maxHeight) \<longrightarrow>
      take 5 (fst (compressImage e f maxWidth maxHeight quality maxSizeMB)) =
        [ReadFile, DecodeImage,
         CreateCanvas (fst (new_dimensions (img_width img) (img_height img) maxWidth maxHeight))
                      (snd (new_dimensions (img_width img) (img_height img) maxWidth maxHeight)),
         DrawImage (fst (new_dimensions (img_width img) (img_height img) maxWidth maxHeight))
                   (snd (new_dimensions (img_width img) (img_height img) maxWidth maxHeight)),
         Encode (output_type f) quality] \<and>
      snd (compressImage e f maxWidth maxHeight quality maxSizeMB) =
        (case toBlob e (drawn_canvas img maxWidth maxHeight) (output_type f) quality of
           None \<Rightarrow> Reject FailedToCompressImage
         | Some b1 \<Rightarrow>
             Resolve (new_File
               (if real (blob_size b1) > maxSizeMB * 1024 * 1024 \<and> quality > 0.3
                then (case toBlob e (drawn_canvas img maxWidth maxHeight) (output_type f)
                             (max 0.3 (quality - 0.2)) of
                        None \<Rightarrow> b1
                      | Some b2 \<Rightarrow> b2)
                else b1)
               (file_name f) (output_type f) (dateNow e f))))"
proof -
  let ?nd = "new_dimensions (img_width img) (img_height img) maxWidth maxHeight"
  have a: "real w > maxWidth \<or> real h > maxHeight \<Longrightarrow>
      new_dimensions w h maxWidth maxHeight =
        (js_mul (real w) (math_min (js_div maxWidth (real w)) (js_div maxHeight (real h))),
         js_mul (real h) (math_min (js_div maxWidth (real w)) (js_div maxHeight (real h))))"
    by (simp add: new_dimensions_def Let_def)
  have b: "real w \<le> maxWidth \<Longrightarrow> real h \<le> maxHeight \<Longrightarrow>
      new_dimensions w h maxWidth maxHeight = (Fin (real w), Fin (real h))"
    by (simp add: new_dimensions_def)
  have c: "img_width img = 4000 \<Longrightarrow> img_height img = 2000 \<Longrightarrow>
      canvas_width (drawn_canvas img 1920 1920) = 1920 \<and>
      canvas_height (drawn_canvas img 1920 1920) = 960"
    by (simp add: drawn_canvas_eq sample_dimensions reflected_def)
  have d: "canvas_width (drawn_canvas img maxWidth maxHeight) = img_width img \<and>
      canvas_height (drawn_canvas img maxWidth maxHeight) = img_height img"
    if "real (img_width img) \<le> maxWidth" "real (img_height img) \<le> maxHeight"
      "img_width img \<le> 2147483647" "img_height img \<le> 2147483647"
    using that by (simp add: drawn_canvas_eq new_dimensions_def reflected_whole)
  have s: "\<exists>r. math_min (js_div maxWidth (real (img_width img)))
                      (js_div maxHeight (real (img_height img))) = Fin r \<and>
           0 \<le> r \<and> r < 1 + 1 / 2 ^ 54 \<and>
           real (img_width img) * r - 1 - 1 / 2 ^ 23 <
             real (canvas_width (drawn_canvas img maxWidth maxHeight)) \<and>
           real (canvas_width (drawn_canvas img maxWidth maxHeight)) \<le>
             real (img_width img) * r + 1 / 2 ^ 23 \<and>
           real (img_height img) * r - 1 - 1 / 2 ^ 23 <
             real (canvas_height (drawn_canvas img maxWidth maxHeight)) \<and>
           real (canvas_height (drawn_canvas img maxWidth maxHeight)) \<le>
             real (img_height img) * r + 1 / 2 ^ 23"
    if dims: "0 < img_width img" "img_width img \<le> 2147483647"
      "0 < img_height img" "img_height img \<le> 2147483647"
      and bounds: "0 < maxWidth" "0 < maxHeight"
      and over: "real (img_width img) > maxWidth \<or> real (img_height img) > maxHeight"
  proof -
    from ratio_finite [OF dims(1) dims(3) bounds over] obtain r
      where r: "math_min (js_div maxWidth (real (img_width img)))
                  (js_div maxHeight (real (img_height img))) = Fin r"
        "0 \<le> r" "r < 1 + 1 / 2 ^ 54"
      by blast
    from over r(1) have nd: "?nd = (js_mul (real (img_width img)) (Fin r),
        js_mul (real (img_height img)) (Fin r))"
      by (simp add: new_dimensions_def Let_def)
    note wpx = scaled_pixels [OF r(2,3) dims(1,2), of 300]
    note hpx = scaled_pixels [OF r(2,3) dims(3,4), of 150]
    from wpx hpx r show ?thesis
      unfolding drawn_canvas_eq nd by (intro exI [of _ r]) simp
  qed
  have g: "take 5 (fst (compressImage e f maxWidth maxHeight quality maxSizeMB)) =
        [ReadFile, DecodeImage, CreateCanvas (fst ?nd) (snd ?nd), DrawImage (fst ?nd) (snd ?nd),
         Encode (output_type f) quality] \<and>
      snd (compressImage e f maxWidth maxHeight quality maxSizeMB) =
        (case toBlob e (drawn_canvas img maxWidth maxHeight) (output_type f) quality of
           None \<Rightarrow> Reject FailedToCompressImage
         | Some b1 \<Rightarrow>
             Resolve (new_File
               (if real (blob_size b1) > maxSizeMB * 1024 * 1024 \<and> quality > 0.3
                then (case toBlob e (drawn_canvas img maxWidth maxHeight) (output_type f)
                             (max 0.3 (quality - 0.2)) of
                        None \<Rightarrow> b1
                      | Some b2 \<Rightarrow> b2)
                else b1)
               (file_name f) (output_type f) (dateNow e f)))"
    if "real (file_size f) > maxSizeMB * 1024 * 1024" "readAsDataURL e f = Some url"
      "loadImage e url = Some img" "getContext e (sized_canvas img maxWidth maxHeight)"
    using that
    by (simp add: compress_defs max_bytes_def Let_def split: prod.splits option.splits)
  from a b c d s g sample_dimensions drawn_canvas_eq [of img maxWidth maxHeight]
  show ?thesis by blast
qed

text \<open>
  The sample picture of 4000 by 2000 gives a canvas of 1920 by 960, from which the sample
  browser encodes \<open>photo\<close>; a picture of 800 by 600 keeps its size; a picture of 2148 by
  1000 gives a canvas of 1919 by 893, one pixel below the exact product in width.
\<close>

theorem uniform_scaling_witness:
  "real (4000::nat) > (1920::real) \<and>
   new_dimensions 4000 2000 1920 1920 = (Fin 1920, Fin 960) \<and>
   canvas_width (drawn_canvas \<lparr>img_width = 4000, img_height = 2000, img_src = ''photo.png''\<rparr>
     1920 1920) = 1920 \<and>
   canvas_height (drawn_canvas \<lparr>img_width = 4000, img_height = 2000, img_src = ''photo.png''\<rparr>
     1920 1920) = 960 \<and>
   real (800::nat) \<le> (1920::real) \<and> real (600::nat) \<le> (1920::real) \<and>
   new_dimensions 800 600 1920 1920 = (Fin 800, Fin 600) \<and>
   canvas_width (drawn_canvas \<lparr>img_width = 800, img_height = 600, img_src = ''s.png''\<rparr>
     1920 1920) = 800 \<and>
   canvas_height (drawn_canvas \<lparr>img_width = 800, img_height = 600, img_src = ''s.png''\<rparr>
     1920 1920) = 600 \<and>
   real (2148::nat) > (1920::real) \<and>
   math_min (js_div 1920 (real (2148::nat))) (js_div 1920 (real (1000::nat))) =
     Fin (1006390978183351 / 1125899906842624) \<and>
   canvas_width (drawn_canvas \<lparr>img_width = 2148, img_height = 1000, img_src = ''n.png''\<rparr>
     1920 1920) = 1919 \<and>
   canvas_height (drawn_canvas \<lparr>img_width = 2148, img_height = 1000, img_src = ''n.png''\<rparr>
     1920 1920) = 893 \<and>
   real (2148::nat) * (1006390978183351 / 1125899906842624) - 1 - 1 / 2 ^ 23 < (1919::real) \<and>
   (1919::real) \<le> real (2148::nat) * (1006390978183351 / 1125899906842624) + 1 / 2 ^ 23 \<and>
   real (file_size photo) > 1 * 1024 * 1024 \<and>
   readAsDataURL sample_env photo = Some ''photo.png'' \<and>
   loadImage sample_env ''photo.png'' =
     Some \<lparr>img_width = 4000, img_height = 2000, img_src = ''photo.png''\<rparr> \<and>
   take 5 (fst (compressImage sample_env photo 1920 1920 0.8 1)) =
     [ReadFile, DecodeImage, CreateCanvas (Fin 1920) (Fin 960), DrawImage (Fin 1920) (Fin 960),
      Encode ''image/png'' 0.8] \<and>
   snd (compressImage sample_env photo 1920 1920 0.8 1) = Resolve photo_out"
proof -
  let ?big = "\<lparr>img_width = 4000, img_height = 2000, img_src = ''photo.png''\<rparr>"
  let ?small = "\<lparr>img_width = 800, img_height = 600, img_src = ''s.png''\<rparr>"
  let ?narrow = "\<lparr>img_width = 2148, img_height = 1000, img_src = ''n.png''\<rparr>"
  let ?r = "1006390978183351 / 1125899906842624 :: real"
  have rd: "readAsDataURL sample_env photo = Some ''photo.png''"
    by (simp add: sample_env_def photo_def)
  have ld: "loadImage sample_env ''photo.png'' = Some ?big"
    by (simp add: sample_env_def)
  have ctx: "getContext sample_env (sized_canvas ?big 1920 1920)"
    by (simp add: sample_env_def)
  note big = uniform_scaling [where w = 4000 and h = 2000 and maxWidth = 1920
      and maxHeight = 1920 and img = ?big and f = photo and maxSizeMB = 1
      and e = sample_env and url = "''photo.png''" and quality = "0.8"]
  note small = uniform_scaling [where w = 800 and h = 600 and maxWidth = 1920
      and maxHeight = 1920 and img = ?small]
  note narrow = uniform_scaling [where w = 2148 and h = 1000 and maxWidth = 1920
      and maxHeight = 1920 and img = ?narrow]
  note big3 = big [THEN conjunct2, THEN conjunct2, THEN conjunct1]
  note big5 = big [THEN conjunct2, THEN conjunct2, THEN conjunct2, THEN conjunct2,
      THEN conjunct1, rule_format]
  note big8 = big [THEN conjunct2, THEN conjunct2, THEN conjunct2, THEN conjunct2,
      THEN conjunct2, THEN conjunct2, THEN conjunct2, rule_format]
  note small2 = small [THEN conjunct2, THEN conjunct1, rule_format]
  note small6 = small [THEN conjunct2, THEN conjunct2, THEN conjunct2, THEN conjunct2,
      THEN conjunct2, THEN conjunct1, rule_format]
  note narrow7 = narrow [THEN conjunct2, THEN conjunct2, THEN conjunct2, THEN conjunct2,
      THEN conjunct2, THEN conjunct2, THEN conjunct1, rule_format]
  have b1: "new_dimensions 4000 2000 1920 1920 = (Fin 1920, Fin 960)"
    by (rule big3)
  have b2: "canvas_width (drawn_canvas ?big 1920 1920) = 1920"
    "canvas_height (drawn_canvas ?big 1920 1920) = 960"
    using big5 by simp_all
  have "take 5 (fst (compressImage sample_env photo 1920 1920 0.8 1)) =
     [ReadFile, DecodeImage,
      CreateCanvas (fst (new_dimensions (img_width ?big) (img_height ?big) 1920 1920))
                   (snd (new_dimensions (img_width ?big) (img_height ?big) 1920 1920)),
      DrawImage (fst (new_dimensions (img_width ?big) (img_height ?big) 1920 1920))
                (snd (new_dimensions (img_width ?big) (img_height ?big) 1920 1920)),
      Encode (output_type photo) 0.8]"
    using big8 [OF conjI [OF photo_large conjI [OF rd conjI [OF ld ctx]]]] by (rule conjunct1)
  then have b3: "take 5 (fst (compressImage sample_env photo 1920 1920 0.8 1)) =
     [ReadFile, DecodeImage, CreateCanvas (Fin 1920) (Fin 960), DrawImage (Fin 1920) (Fin 960),
      Encode (output_type photo) 0.8]"
    by (simp add: sample_dimensions)
  have ty: "output_type photo = ''image/png''"
    by (simp add: output_type_def photo_def)
  have s1: "new_dimensions 800 600 1920 1920 = (Fin 800, Fin 600)"
    using small2 by simp
  have s2: "canvas_width (drawn_canvas ?small 1920 1920) = 800"
    "canvas_height (drawn_canvas ?small 1920 1920) = 600"
    using small6 by simp_all
  have "\<exists>r. math_min (js_div 1920 (real (img_width ?narrow)))
                (js_div 1920 (real (img_height ?narrow))) = Fin r \<and>
           0 \<le> r \<and> r < 1 + 1 / 2 ^ 54 \<and>
           real (img_width ?narrow) * r - 1 - 1 / 2 ^ 23 <
             real (canvas_width (drawn_canvas ?narrow 1920 1920)) \<and>
           real (canvas_width (drawn_canvas ?narrow 1920 1920)) \<le>
             real (img_width ?narrow) * r + 1 / 2 ^ 23 \<and>
           real (img_height ?narrow) * r - 1 - 1 / 2 ^ 23 <
             real (canvas_height (drawn_canvas ?narrow 1920 1920)) \<and>
           real (canvas_height (drawn_canvas ?narrow 1920 1920)) \<le>
             real (img_height ?narrow) * r + 1 / 2 ^ 23"
    by (rule narrow7) simp
  then obtain r where r:
    "math_min (js_div 1920 (real (img_width ?narrow))) (js_div 1920 (real (img_height ?narrow))) =
       Fin r"
    "real (img_width ?narrow) * r - 1 - 1 / 2 ^ 23 <
       real (canvas_width (drawn_canvas ?narrow 1920 1920))"
    "real (canvas_width (drawn_canvas ?narrow 1920 1920)) \<le>
       real (img_width ?narrow) * r + 1 / 2 ^ 23"
    by blast
  from r(1) narrow_ratio have req: "r = ?r" by simp
  have n1: "canvas_width (drawn_canvas ?narrow 1920 1920) = 1919"
    "canvas_height (drawn_canvas ?narrow 1920 1920) = 893"
    by (simp_all add: narrow_canvas)
  from r(2,3) have n2: "real (2148::nat) * ?r - 1 - 1 / 2 ^ 23 < (1919::real)"
    "(1919::real) \<le> real (2148::nat) * ?r + 1 / 2 ^ 23"
    unfolding req n1 by simp_all
  from narrow_ratio have n0:
    "math_min (js_div 1920 (real (2148::nat))) (js_div 1920 (real (1000::nat))) = Fin ?r"
    by simp
  have out: "snd (compressImage sample_env photo 1920 1920 0.8 1) = Resolve photo_out"
    using photo_run by simp
  from b1 b2 b3 s1 s2 n0 n1 n2 photo_large rd ld out show ?thesis
    unfolding ty by simp
qed

text \<open>Facts about \<open>Promise.all\<close>.\<close>

lemma first_rejection_all_resolved: "first_rejection order (map Resolve vs) = None"
  by (induction order) auto

lemma resolved_values_all_resolved: "resolved_values (map Resolve vs) = vs"
  by (induction vs) auto

lemma promise_all_resolved: "promise_all order (map Resolve vs) = Resolve vs"
  by (simp add: promise_all_def first_rejection_all_resolved resolved_values_all_resolved)

text \<open>
  The reason \<open>Promise.all\<close> rejects with is that of a promise that rejected, and every
  promise that settled before it resolved.
\<close>

lemma first_rejection_Some:
  "first_rejection order ps = Some err \<Longrightarrow>
     \<exists>k < length order. order ! k < length ps \<and> ps ! (order ! k) = Reject err \<and>
       (\<forall>k' < k. order ! k' < length ps \<longrightarrow> (\<exists>v. ps ! (order ! k') = Resolve v))"
proof (induction order)
  case Nil
  then show ?case by simp
next
  case (Cons i order)
  show ?case
  proof (cases "i < length ps \<and> (\<exists>e. ps ! i = Reject e)")
    case True
    with Cons.prems have "ps ! i = Reject err" by auto
    with True have "0 < length (i # order) \<and> (i # order) ! 0 < length ps \<and>
        ps ! ((i # order) ! 0) = Reject err \<and>
        (\<forall>k' < 0. (i # order) ! k' < length ps \<longrightarrow> (\<exists>v. ps ! ((i # order) ! k') = Resolve v))"
      by simp
    then show ?thesis by blast
  next
    case False
    then have res: "i < length ps \<longrightarrow> (\<exists>v. ps ! i = Resolve v)"
      by (cases "ps ! i") auto
    with Cons.prems have "first_rejection order ps = Some err"
      by (auto split: if_splits outcome.splits)
    from Cons.IH [OF this] obtain k where k: "k < length order" "order ! k < length ps"
      "ps ! (order ! k) = Reject err"
      "\<forall>k' < k. order ! k' < length ps \<longrightarrow> (\<exists>v. ps ! (order ! k') = Resolve v)"
      by blast
    have "\<forall>k' < Suc k. (i # order) ! k' < length ps \<longrightarrow> (\<exists>v. ps ! ((i # order) ! k') = Resolve v)"
    proof (intro allI impI)
      fix k' assume "k' < Suc k" "(i # order) ! k' < length ps"
      then show "\<exists>v. ps ! ((i # order) ! k') = Resolve v"
        using res k(4) by (cases k') auto
    qed
    with k have "Suc k < length (i # order) \<and> (i # order) ! Suc k < length ps \<and>
        ps ! ((i # order) ! Suc k) = Reject err \<and>
        (\<forall>k' < Suc k. (i # order) ! k' < length ps \<longrightarrow> (\<exists>v. ps ! ((i # order) ! k') = Resolve v))"
      by simp
    then show ?thesis by blast
  qed
qed

lemma first_rejection_exists:
  "i \<in> set order \<Longrightarrow> i < length ps \<Longrightarrow> ps ! i = Reject err \<Longrightarrow>
     \<exists>err'. first_rejection order ps = Some err'"
  by (induction order) (auto split: outcome.splits)

lemma compressImages_eq:
  "compressImages e order files opts =
     (map (\<lambda>f. fst (item_promise e opts f)) files,
      promise_all order (map (\<lambda>f. snd (item_promise e opts f)) files))"
  by (simp add: compressImages_def Let_def comp_def)

text \<open>
  C8. \<open>compressImages\<close> applies \<open>compressImage\<close> to each file on its own, with the policy
  of the options object and the defaults 1920, 1920, 0.8 and 1 for what it leaves out (or
  when no options are given). When every item resolves, the batch
  resolves with the results in the order of the input. When an item that settles rejects,
  the batch rejects, so that no list of results is returned at all, and it rejects with
  the error of the item that failed first; when a single item fails, that is this item's
  error.
\<close>

theorem batch_all_or_nothing:
  "fst (compressImages e order files opts) = map (\<lambda>f. fst (item_promise e opts f)) files \<and>
   item_promise e opts g =
     compressImage e g
       (case opts of None \<Rightarrow> 1920
        | Some os \<Rightarrow> (case opt_maxWidth os of None \<Rightarrow> 1920 | Some v \<Rightarrow> v))
       (case opts of None \<Rightarrow> 1920
        | Some os \<Rightarrow> (case opt_maxHeight os of None \<Rightarrow> 1920 | Some v \<Rightarrow> v))
       (case opts of None \<Rightarrow> 0.8
        | Some os \<Rightarrow> (case opt_quality os of None \<Rightarrow> 0.8 | Some v \<Rightarrow> v))
       (case opts of None \<Rightarrow> 1
        | Some os \<Rightarrow> (case opt_maxSizeMB os of None \<Rightarrow> 1 | Some v \<Rightarrow> v)) \<and>
   item_promise e None g = compressImage e g 1920 1920 0.8 1 \<and>
   item_promise e
     (Some \<lparr>opt_maxWidth = Some maxWidth, opt_maxHeight = Some maxHeight,
            opt_quality = Some quality, opt_maxSizeMB = Some maxSizeMB\<rparr>) g =
     compressImage e g maxWidth maxHeight quality maxSizeMB \<and>
   (map (\<lambda>f. snd (item_promise e opts f)) files = map Resolve outs \<longrightarrow>
      snd (compressImages e order files opts) = Resolve outs) \<and>
   (i \<in> set order \<and> i < length files \<and> snd (item_promise e opts (files ! i)) = Reject err \<longrightarrow>
      (\<exists>k err'. k < length order \<and> order ! k < length files \<and>
         snd (item_promise e opts (files ! (order ! k))) = Reject err' \<and>
         (\<forall>k' < k. order ! k' < length files \<longrightarrow>
            (\<exists>out. snd (item_promise e opts (files ! (order ! k'))) = Resolve out)) \<and>
         snd (compressImages e order files opts) = Reject err')) \<and>
   (i \<in> set order \<and> i < length files \<and> snd (item_promise e opts (files ! i)) = Reject err \<and>
    (\<forall>j < length files. j \<noteq> i \<longrightarrow> (\<exists>out. snd (item_promise e opts (files ! j)) = Resolve out)) \<longrightarrow>
      snd (compressImages e order files opts) = Reject err)"
proof -
  let ?ps = "map (\<lambda>f. snd (item_promise e opts f)) files"
  have a: "fst (compressImages e order files opts) = map (\<lambda>f. fst (item_promise e opts f)) files"
    by (simp add: compressImages_eq)
  have d: "item_promise e None g = compressImage e g 1920 1920 0.8 1"
    by (simp add: item_promise_def option_or_def)
  have d': "item_promise e opts g =
     compressImage e g
       (case opts of None \<Rightarrow> 1920
        | Some os \<Rightarrow> (case opt_maxWidth os of None \<Rightarrow> 1920 | Some v \<Rightarrow> v))
       (case opts of None \<Rightarrow> 1920
        | Some os \<Rightarrow> (case opt_maxHeight os of None \<Rightarrow> 1920 | Some v \<Rightarrow> v))
       (case opts of None \<Rightarrow> 0.8
        | Some os \<Rightarrow> (case opt_quality os of None \<Rightarrow> 0.8 | Some v \<Rightarrow> v))
       (case opts of None \<Rightarrow> 1
        | Some os \<Rightarrow> (case opt_maxSizeMB os of None \<Rightarrow> 1 | Some v \<Rightarrow> v))"
    by (simp add: item_promise_def option_or_def Let_def split: option.splits)
  have d'': "item_promise e
     (Some \<lparr>opt_maxWidth = Some maxWidth, opt_maxHeight = Some maxHeight,
            opt_quality = Some quality, opt_maxSizeMB = Some maxSizeMB\<rparr>) g =
     compressImage e g maxWidth maxHeight quality maxSizeMB"
    by (simp add: item_promise_def option_or_def)
  have b: "?ps = map Resolve outs \<Longrightarrow> snd (compressImages e order files opts) = Resolve outs"
    by (simp add: compressImages_eq promise_all_resolved)
  have c: "\<exists>k err'. k < length order \<and> order ! k < length files \<and>
         snd (item_promise e opts (files ! (order ! k))) = Reject err' \<and>
         (\<forall>k' < k. order ! k' < length files \<longrightarrow>
            (\<exists>out. snd (item_promise e opts (files ! (order ! k'))) = Resolve out)) \<and>
         snd (compressImages e order files opts) = Reject err'"
    if i: "i \<in> set order" "i < length files" "snd (item_promise e opts (files ! i)) = Reject err"
  proof -
    from i have "?ps ! i = Reject err" "i < length ?ps" by simp_all
    from first_rejection_exists [OF i(1) this(2) this(1)]
    obtain err' where fr: "first_rejection order ?ps = Some err'" by blast
    from first_rejection_Some [OF fr] obtain k where k: "k < length order"
      "order ! k < length ?ps" "?ps ! (order ! k) = Reject err'"
      "\<forall>k' < k. order ! k' < length ?ps \<longrightarrow> (\<exists>v. ?ps ! (order ! k') = Resolve v)"
      by blast
    from fr have "snd (compressImages e order files opts) = Reject err'"
      by (simp add: compressImages_eq promise_all_def)
    with k show ?thesis
      by (intro exI [of _ k] exI [of _ err']) auto
  qed
  have s: "snd (compressImages e order files opts) = Reject err"
    if i: "i \<in> set order" "i < length files" "snd (item_promise e opts (files ! i)) = Reject err"
      and others: "\<forall>j < length files. j \<noteq> i \<longrightarrow>
        (\<exists>out. snd (item_promise e opts (files ! j)) = Resolve out)"
  proof -
    from c [OF i] obtain k err' where k: "order ! k < length files"
      "snd (item_promise e opts (files ! (order ! k))) = Reject err'"
      "snd (compressImages e order files opts) = Reject err'"
      by blast
    from k(1,2) others have "order ! k = i"
      by (metis outcome.distinct(1))
    with k i(3) show ?thesis by simp
  qed
  from a b c d d' d'' s show ?thesis by blast
qed

lemma icon_item: "item_promise sample_env None icon = ([], Resolve icon)"
  using icon_small by (simp add: item_promise_def option_or_def compressImage_def max_bytes_def)

lemma photo_item:
  "item_promise sample_env None photo =
     ([ReadFile, DecodeImage, CreateCanvas (Fin 1920) (Fin 960), DrawImage (Fin 1920) (Fin 960),
       Encode ''image/png'' 0.8, Encode ''image/png'' 0.6], Resolve photo_out)"
  using photo_run by (simp add: item_promise_def option_or_def)

lemma broken_item:
  "item_promise sample_env None broken = ([ReadFile, DecodeImage], Reject FailedToLoadImage)"
  using broken_run by (simp add: item_promise_def option_or_def)

text \<open>
  A batch of two files that both succeed, with the defaults and with a policy whose budget
  of 3 MiB lets \<open>photo\<close> through unchanged, and a batch whose second file does not decode.
\<close>

theorem batch_all_or_nothing_witness:
  "map (\<lambda>f. snd (item_promise sample_env None f)) [icon, photo] = map Resolve [icon, photo_out] \<and>
   snd (compressImages sample_env [1, 0] [icon, photo] None) = Resolve [icon, photo_out] \<and>
   item_promise sample_env (Some roomy_policy) photo = compressImage sample_env photo 1920 1920 0.6 3 \<and>
   map (\<lambda>f. snd (item_promise sample_env (Some roomy_policy) f)) [icon, photo] =
     map Resolve [icon, photo] \<and>
   snd (compressImages sample_env [1, 0] [icon, photo] (Some roomy_policy)) =
     Resolve [icon, photo] \<and>
   (1::nat) \<in> set [2, 0, 1] \<and> (1::nat) < length [icon, broken, photo] \<and>
   snd (item_promise sample_env None ([icon, broken, photo] ! 1)) = Reject FailedToLoadImage \<and>
   snd (item_promise sample_env None ([icon, broken, photo] ! 0)) = Resolve icon \<and>
   snd (item_promise sample_env None ([icon, broken, photo] ! 2)) = Resolve photo_out \<and>
   snd (compressImages sample_env [2, 0, 1] [icon, broken, photo] None) = Reject FailedToLoadImage"
proof -
  have all: "map (\<lambda>f. snd (item_promise sample_env None f)) [icon, photo] =
      map Resolve [icon, photo_out]"
    by (simp add: icon_item photo_item)
  have bad: "snd (item_promise sample_env None ([icon, broken, photo] ! 1)) =
      Reject FailedToLoadImage"
    by (simp add: broken_item)
  have good0: "snd (item_promise sample_env None ([icon, broken, photo] ! 0)) = Resolve icon"
    by (simp add: icon_item)
  have good2: "snd (item_promise sample_env None ([icon, broken, photo] ! 2)) = Resolve photo_out"
    by (simp add: photo_item)
  have others: "\<forall>j < length [icon, broken, photo]. j \<noteq> 1 \<longrightarrow>
      (\<exists>out. snd (item_promise sample_env None ([icon, broken, photo] ! j)) = Resolve out)"
  proof (intro allI impI)
    fix j :: nat assume "j < length [icon, broken, photo]" "j \<noteq> 1"
    then have "j = 0 \<or> j = 2" by auto
    with good0 good2 show "\<exists>out. snd (item_promise sample_env None ([icon, broken, photo] ! j)) = Resolve out"
      by auto
  qed
  from batch_all_or_nothing [where e = sample_env and order = "[1, 0]" and files = "[icon, photo]"
      and opts = None and outs = "[icon, photo_out]"] all
  have ok: "snd (compressImages sample_env [1, 0] [icon, photo] None) = Resolve [icon, photo_out]"
    by blast
  note roomy = batch_all_or_nothing [where e = sample_env and order = "[1, 0]"
      and files = "[icon, photo]" and opts = "Some roomy_policy" and outs = "[icon, photo]"]
  have item: "item_promise sample_env (Some roomy_policy) g =
      compressImage sample_env g 1920 1920 0.6 3" for g
    using roomy [where g = g, THEN conjunct2, THEN conjunct1]
    by (simp add: roomy_policy_def)
  have fits: "real (file_size icon) \<le> max_bytes 3" "real (file_size photo) \<le> max_bytes 3"
    by (simp_all add: file_size_def icon_def photo_def max_bytes_def)
  then have all': "map (\<lambda>f. snd (item_promise sample_env (Some roomy_policy) f)) [icon, photo] =
      map Resolve [icon, photo]"
    by (simp add: item compressImage_def)
  with roomy have ok': "snd (compressImages sample_env [1, 0] [icon, photo] (Some roomy_policy)) =
      Resolve [icon, photo]"
    by blast
  have mem: "(1::nat) \<in> set [2, 0, 1]" "(1::nat) < length [icon, broken, photo]"
    by simp_all
  from batch_all_or_nothing [where e = sample_env and order = "[2, 0, 1]"
      and files = "[icon, broken, photo]" and opts = None and i = 1 and err = FailedToLoadImage]
    mem bad others
  have "snd (compressImages sample_env [2, 0, 1] [icon, broken, photo] None) =
      Reject FailedToLoadImage"
    by blast
  with all ok item [of photo] all' ok' mem bad good0 good2 show ?thesis
    by blast
qed

section \<open>Properties of polling\<close>

lemmas poll_defs =
  poll_response_def poll_catch_def poll_send_def clear_polling_def did_def startPolling_def












lemma lower_char_idem: "lower_char (lower_char c) = lower_char c"
  by (simp add: lower_char_def)

lemma toLowerCase_idem: "toLowerCase (toLowerCase st) = toLowerCase st"
  by (simp add: toLowerCase_def lower_char_idem)

lemma mixed_case_run:
  "run (scripted [Returned (snapshot ''Succeeded'')]) (startPolling ''job'' submitted_page) =
     \<lparr>status = ''Succeeded'', statusMessage = [], generatedImages = None, error = None,
      isGenerating = True, pollingIntervalRef = Some ''job'', inflight = 1,
      calls = [CheckJobStatus ''job'', SetInterval, SetStatus ''Succeeded'', SetStatusMessage [],
               CheckJobStatus ''job'']\<rparr>"
  by (simp add: run_def scripted_def poll_defs submitted_page_def snapshot_def is_terminal_def
      Let_def)

text \<open>
  C6 as stated fails. The answer \<open>Succeeded\<close> equals \<open>succeeded\<close> once lowercased, and the
  badge shows it in green, but \<open>poll\<close> compares the tag as received: the interval stays
  installed, the page still counts as generating, and the next tick sends a second
  request.
\<close>

theorem case_insensitive_counterexample:
  "toLowerCase ''Succeeded'' = ''succeeded'' \<and>
   getStatusColor ''Succeeded'' = ''bg-green-500 text-green-50'' \<and>
   pollingIntervalRef
     (run (scripted [Returned (snapshot ''Succeeded'')]) (startPolling ''job'' submitted_page)) =
     Some ''job'' \<and>
   isGenerating
     (run (scripted [Returned (snapshot ''Succeeded'')]) (startPolling ''job'' submitted_page)) \<and>
   requests
     (run (scripted [Returned (snapshot ''Succeeded'')]) (startPolling ''job'' submitted_page)) = 2"
  by (simp add: mixed_case_run requests_def)
    (simp add: getStatusColor_def toLowerCase_def lower_char_def)

text \<open>
  C6, amended. \<open>poll\<close> compares the status tag as received, letter for letter: an answer
  without error clears the interval exactly when its tag is \<open>succeeded\<close>, \<open>failed\<close> or
  \<open>canceled\<close>; with any other tag (another letter case, or a value outside the five known
  tags) the interval and the generating flag are left as they are and the next tick polls
  again. Only the status badge is insensitive to case: its colour is that of the
  lowercased tag.
\<close>

theorem exact_status_match:
  "(0 < inflight s \<and> pollingIntervalRef s = Some ident \<and> \<not> error_truthy (sr_error r) \<longrightarrow>
      (pollingIntervalRef (step (Arrive (Returned r)) s) = None) =
        (sr_status r = ''succeeded'' \<or> sr_status r = ''failed'' \<or> sr_status r = ''canceled'')) \<and>
   (0 < inflight s \<and> \<not> error_truthy (sr_error r) \<and>
    sr_status r \<notin> set [''succeeded'', ''failed'', ''canceled''] \<longrightarrow>
      pollingIntervalRef (step (Arrive (Returned r)) s) = pollingIntervalRef s \<and>
      isGenerating (step (Arrive (Returned r)) s) = isGenerating s \<and>
      requests (step Tick (step (Arrive (Returned r)) s)) =
        requests s + (if pollingIntervalRef s = None then 0 else 1)) \<and>
   getStatusColor (toLowerCase st) = getStatusColor st"
proof -
  have a: "(pollingIntervalRef (step (Arrive (Returned r)) s) = None) =
        (sr_status r = ''succeeded'' \<or> sr_status r = ''failed'' \<or> sr_status r = ''canceled'')"
    if "0 < inflight s" "pollingIntervalRef s = Some ident" "\<not> error_truthy (sr_error r)"
    using that by (auto simp add: poll_defs is_terminal_def Let_def)
  have b: "pollingIntervalRef (step (Arrive (Returned r)) s) = pollingIntervalRef s \<and>
      isGenerating (step (Arrive (Returned r)) s) = isGenerating s \<and>
      requests (step Tick (step (Arrive (Returned r)) s)) =
        requests s + (if pollingIntervalRef s = None then 0 else 1)"
    if "0 < inflight s" "\<not> error_truthy (sr_error r)"
      "sr_status r \<notin> set [''succeeded'', ''failed'', ''canceled'']"
    using that
    by (auto simp add: poll_defs is_terminal_def requests_def Let_def split: option.splits)
  have c: "getStatusColor (toLowerCase st) = getStatusColor st"
    by (simp add: getStatusColor_def toLowerCase_idem)
  from a b c show ?thesis by blast
qed

lemma started:
  "startPolling ''job'' submitted_page =
     \<lparr>status = [], statusMessage = [], generatedImages = None, error = None,
      isGenerating = True, pollingIntervalRef = Some ''job'', inflight = 1,
      calls = [CheckJobStatus ''job'', SetInterval]\<rparr>"
  by (simp add: poll_defs submitted_page_def)

text \<open>
  On a page that has just started polling: \<open>failed\<close> clears the interval; \<open>FAILED\<close> does
  not, and the next tick sends the second request, while the badge shows \<open>FAILED\<close> in red.
\<close>

theorem exact_status_match_witness:
  "0 < inflight (startPolling ''job'' submitted_page) \<and>
   pollingIntervalRef (startPolling ''job'' submitted_page) = Some ''job'' \<and>
   \<not> error_truthy (sr_error (snapshot ''failed'')) \<and>
   pollingIntervalRef
     (step (Arrive (Returned (snapshot ''failed''))) (startPolling ''job'' submitted_page)) = None \<and>
   \<not> error_truthy (sr_error (snapshot ''FAILED'')) \<and>
   ''FAILED'' \<notin> set [''succeeded'', ''failed'', ''canceled''] \<and>
   pollingIntervalRef
     (step (Arrive (Returned (snapshot ''FAILED''))) (startPolling ''job'' submitted_page)) =
     Some ''job'' \<and>
   requests (step Tick
     (step (Arrive (Returned (snapshot ''FAILED''))) (startPolling ''job'' submitted_page))) = 2 \<and>
   getStatusColor ''FAILED'' = ''bg-red-500 text-red-50''"
proof -
  let ?s = "startPolling ''job'' submitted_page"
  have pos: "0 < inflight ?s" and ref: "pollingIntervalRef ?s = Some ''job''"
    and req: "requests ?s = 1"
    by (simp_all add: started requests_def)
  have ne: "\<not> error_truthy (sr_error (snapshot ''failed''))"
    "\<not> error_truthy (sr_error (snapshot ''FAILED''))"
    by (simp_all add: snapshot_def)
  have tag: "sr_status (snapshot ''failed'') = ''failed''"
    "sr_status (snapshot ''FAILED'') = ''FAILED''"
    by (simp_all add: snapshot_def)
  have out: "''FAILED'' \<notin> set [''succeeded'', ''failed'', ''canceled'']"
    by simp
  have low: "toLowerCase ''FAILED'' = ''failed''"
    by (simp add: toLowerCase_def lower_char_def)
  from exact_status_match [where s = ?s and ident = "''job''" and r = "snapshot ''failed''"]
    pos ref ne(1) tag(1)
  have stop: "pollingIntervalRef (step (Arrive (Returned (snapshot ''failed''))) ?s) = None"
    by simp
  have out': "sr_status (snapshot ''FAILED'') \<notin> set [''succeeded'', ''failed'', ''canceled'']"
    by (simp add: snapshot_def)
  note inst = exact_status_match [where s = ?s and ident = "''job''"
      and r = "snapshot ''FAILED''" and st = "''FAILED''"]
  note other = inst [THEN conjunct2, THEN conjunct1, rule_format,
      OF conjI [OF pos conjI [OF ne(2) out']]]
  from other have cont: "pollingIntervalRef (step (Arrive (Returned (snapshot ''FAILED''))) ?s) =
        pollingIntervalRef ?s"
    and tick: "requests (step Tick (step (Arrive (Returned (snapshot ''FAILED''))) ?s)) =
        requests ?s + (if pollingIntervalRef ?s = None then 0 else 1)"
    by (rule conjunct1, rule conjunct2 [THEN conjunct2])
  from inst have badge: "getStatusColor (toLowerCase ''FAILED'') = getStatusColor ''FAILED''"
    by (rule conjunct2 [THEN conjunct2])
  from cont ref have "pollingIntervalRef (step (Arrive (Returned (snapshot ''FAILED''))) ?s) =
      Some ''job''"
    by simp
  moreover from tick ref req
  have "requests (step Tick (step (Arrive (Returned (snapshot ''FAILED''))) ?s)) = 2"
    by simp
  moreover from badge low have "getStatusColor ''FAILED'' = ''bg-red-500 text-red-50''"
    by (simp add: getStatusColor_def)
  ultimately have "pollingIntervalRef (step (Arrive (Returned (snapshot ''FAILED''))) ?s) =
      Some ''job''"
    and "requests (step Tick (step (Arrive (Returned (snapshot ''FAILED''))) ?s)) = 2"
    and "getStatusColor ''FAILED'' = ''bg-red-500 text-red-50''"
    by blast+
  with pos ref ne out stop show ?thesis
    by blast
qed

text \<open>
  C10 as stated fails. An output that is not null but is the empty string is not recorded:
  the test \<open>if (response.data.output)\<close> is false for it. The answer below carries such an
  output and an error; no \<open>setGeneratedImages\<close> call is made.
\<close>

theorem output_before_error_counterexample:
  "sr_output empty_output_snapshot = Some (OutString []) \<and>
   sr_error empty_output_snapshot = Some ''boom'' \<and>
   generatedImages
     (step (Arrive (Returned empty_output_snapshot)) (startPolling ''job'' submitted_page)) = None \<and>
   calls (step (Arrive (Returned empty_output_snapshot)) (startPolling ''job'' submitted_page)) =
     [CheckJobStatus ''job'', SetInterval, SetStatus ''failed'', SetStatusMessage [],
      SetError ''boom'', SetIsGenerating False, ClearInterval]"
  by (simp add: started empty_output_snapshot_def poll_response_def clear_polling_def did_def
      Let_def)

text \<open>
  C10, amended. An answer whose output is truthy (a list, or a string that is not empty) and
  whose error field is not empty: the output is recorded by \<open>setGeneratedImages\<close> first,
  then the error is set, the generating flag reset and the interval cleared. For every
  answer \<open>r'\<close>, the calls made are \<open>setStatus\<close>, \<open>setStatusMessage\<close>, then
  \<open>setGeneratedImages\<close> when the output is truthy, and only after these the calls of the
  error and terminal checks.
\<close>

theorem output_before_error:
  assumes "0 < inflight s"
    and out: "sr_output r = Some out" "output_truthy (Some out)"
    and err: "sr_error r = Some msg" "msg \<noteq> []"
  shows "calls (step (Arrive (Returned r)) s) =
           calls s @ [SetStatus (sr_status r), SetStatusMessage (sr_message r),
                      SetGeneratedImages out, SetError msg, SetIsGenerating False] @
           (if pollingIntervalRef s = None then [] else [ClearInterval]) \<and>
         generatedImages (step (Arrive (Returned r)) s) = Some out \<and>
         error (step (Arrive (Returned r)) s) = Some msg \<and>
         isGenerating (step (Arrive (Returned r)) s) = False \<and>
         pollingIntervalRef (step (Arrive (Returned r)) s) = None \<and>
         (\<exists>rest. calls (step (Arrive (Returned r')) s) =
                   calls s @ [SetStatus (sr_status r'), SetStatusMessage (sr_message r')] @
                   (if output_truthy (sr_output r')
                    then [SetGeneratedImages (the (sr_output r'))] else []) @ rest \<and>
                 \<not> list_ex is_update rest \<and>
                 (\<forall>c \<in> set rest. c = ClearInterval \<or> c = SetIsGenerating False \<or>
                    (\<exists>m. c = SetError m)))"
  using assms
  by (auto simp add: poll_defs Let_def split: option.splits)

theorem output_before_error_witness:
  "0 < inflight (startPolling ''job'' submitted_page) \<and>
   sr_output both_snapshot = Some (OutList [''https://img/1.png'']) \<and>
   output_truthy (Some (OutList [''https://img/1.png''])) \<and>
   sr_error both_snapshot = Some ''boom'' \<and> ''boom'' \<noteq> [] \<and>
   calls (step (Arrive (Returned both_snapshot)) (startPolling ''job'' submitted_page)) =
     [CheckJobStatus ''job'', SetInterval, SetStatus ''failed'', SetStatusMessage ''done'',
      SetGeneratedImages (OutList [''https://img/1.png'']), SetError ''boom'',
      SetIsGenerating False, ClearInterval] \<and>
   generatedImages (step (Arrive (Returned both_snapshot)) (startPolling ''job'' submitted_page)) =
     Some (OutList [''https://img/1.png'']) \<and>
   pollingIntervalRef (step (Arrive (Returned both_snapshot)) (startPolling ''job'' submitted_page)) =
     None"
proof -
  let ?s = "startPolling ''job'' submitted_page"
  have pos: "0 < inflight ?s"
    by (simp add: started)
  have out: "sr_output both_snapshot = Some (OutList [''https://img/1.png''])"
    "output_truthy (Some (OutList [''https://img/1.png'']))"
    by (simp_all add: both_snapshot_def)
  have err: "sr_error both_snapshot = Some ''boom''" "''boom'' \<noteq> []"
    by (simp_all add: both_snapshot_def)
  have tag: "sr_status both_snapshot = ''failed''" "sr_message both_snapshot = ''done''"
    by (simp_all add: both_snapshot_def)
  from output_before_error [OF pos out err]
  have "calls (step (Arrive (Returned both_snapshot)) ?s) =
     [CheckJobStatus ''job'', SetInterval, SetStatus ''failed'', SetStatusMessage ''done'',
      SetGeneratedImages (OutList [''https://img/1.png'']), SetError ''boom'',
      SetIsGenerating False, ClearInterval]"
    and "generatedImages (step (Arrive (Returned both_snapshot)) ?s) =
      Some (OutList [''https://img/1.png''])"
    and "pollingIntervalRef (step (Arrive (Returned both_snapshot)) ?s) = None"
    by (simp_all add: started tag)
  with pos out err show ?thesis
    by blast
qed

section \<open>Properties of the error messages of the service calls\<close>

lemmas api_defs = generateMatchingSet_def checkJobStatus_def http_error_def response_ok_def

text \<open>
  C7 as stated fails. A response with status 502 and no JSON body: both functions throw
  an error whose message is \<open>Unknown error\<close>, not the message with the status code.
\<close>

theorem http_error_message_counterexample:
  "\<not> response_ok bad_gateway \<and> response_body bad_gateway = None \<and>
   generateMatchingSet ''https://x.supabase.co/functions/v1/generate-matching-set''
     (Fetched bad_gateway) = Inl (Error ''Unknown error'') \<and>
   checkJobStatus ''https://x.supabase.co/functions/v1/generate-matching-set''
     (Fetched bad_gateway) = Inl (Error ''Unknown error'') \<and>
   ''Unknown error'' \<noteq> ''HTTP error! status: '' @ decimal (response_status bad_gateway) \<and>
   decimal (response_status bad_gateway) = ''502''"
  by (simp add: api_defs bad_gateway_def)

text \<open>
  C7, amended. For a configured URL and a response that is not 2xx, both functions throw
  an error whose message is: the \<open>message\<close> field of the body, when the body is a JSON
  object with a non-empty string there; \<open>Unknown error\<close>, when the body is absent or is not
  JSON; and \<open>HTTP error! status: \<close> followed by the status code when the body is JSON that
  has no \<open>message\<close>, or a \<open>message\<close> that is falsy (null, false, 0 or the empty string).
\<close>

theorem http_error_message:
  assumes url: "url \<noteq> []" and bad: "\<not> response_ok r"
  shows "(response_body r = Some (JObject kvs) \<and>
          map_of (rev kvs) ''message'' = Some (JString m) \<and> m \<noteq> [] \<longrightarrow>
            generateMatchingSet url (Fetched r) = Inl (Error m) \<and>
            checkJobStatus url (Fetched r) = Inl (Error m)) \<and>
         (response_body r = None \<longrightarrow>
            generateMatchingSet url (Fetched r) = Inl (Error ''Unknown error'') \<and>
            checkJobStatus url (Fetched r) = Inl (Error ''Unknown error'')) \<and>
         (response_body r = Some j \<and> message_of j = Inr None \<longrightarrow>
            generateMatchingSet url (Fetched r) =
              Inl (Error (''HTTP error! status: '' @ decimal (response_status r))) \<and>
            checkJobStatus url (Fetched r) =
              Inl (Error (''HTTP error! status: '' @ decimal (response_status r)))) \<and>
         (response_body r = Some j \<and> message_of j = Inr (Some v) \<and> \<not> truthy v \<longrightarrow>
            generateMatchingSet url (Fetched r) =
              Inl (Error (''HTTP error! status: '' @ decimal (response_status r))) \<and>
            checkJobStatus url (Fetched r) =
              Inl (Error (''HTTP error! status: '' @ decimal (response_status r))))"
proof -
  from url bad have eq: "generateMatchingSet url (Fetched r) = Inl (http_error r)"
    "checkJobStatus url (Fetched r) = Inl (http_error r)"
    by (simp_all add: generateMatchingSet_def checkJobStatus_def)
  have a: "http_error r = Error m"
    if "response_body r = Some (JObject kvs)" "map_of (rev kvs) ''message'' = Some (JString m)"
      "m \<noteq> []"
    using that by (simp add: http_error_def)
  have b: "http_error r = Error ''Unknown error''" if "response_body r = None"
    using that by (simp add: http_error_def)
  have c: "http_error r = Error (''HTTP error! status: '' @ decimal (response_status r))"
    if "response_body r = Some j" "message_of j = Inr None"
    using that by (simp add: http_error_def)
  have d: "http_error r = Error (''HTTP error! status: '' @ decimal (response_status r))"
    if "response_body r = Some j" "message_of j = Inr (Some v)" "\<not> truthy v"
    using that by (cases v) (simp_all add: http_error_def)
  from a b c d show ?thesis
    unfolding eq by blast
qed

text \<open>A 404 with a message, a 502 without body and a 503 with an empty object.\<close>

theorem http_error_message_witness:
  "''https://x'' \<noteq> [] \<and> \<not> response_ok not_found \<and> \<not> response_ok bad_gateway \<and>
   \<not> response_ok unavailable \<and>
   generateMatchingSet ''https://x'' (Fetched not_found) = Inl (Error ''Prediction not found'') \<and>
   checkJobStatus ''https://x'' (Fetched not_found) = Inl (Error ''Prediction not found'') \<and>
   checkJobStatus ''https://x'' (Fetched bad_gateway) = Inl (Error ''Unknown error'') \<and>
   checkJobStatus ''https://x'' (Fetched unavailable) = Inl (Error ''HTTP error! status: 503'')"
proof -
  have url: "''https://x'' \<noteq> []" by simp
  have bad: "\<not> response_ok not_found" "\<not> response_ok bad_gateway" "\<not> response_ok unavailable"
    by (simp_all add: response_ok_def not_found_def bad_gateway_def unavailable_def)
  let ?kvs = "[(''status'', JString ''error''), (''message'', JString ''Prediction not found'')]"
  have body1: "response_body not_found = Some (JObject ?kvs) \<and>
      map_of (rev ?kvs) ''message'' = Some (JString ''Prediction not found'') \<and>
      ''Prediction not found'' \<noteq> []"
    by (simp add: not_found_def)
  have body2: "response_body bad_gateway = None"
    by (simp add: bad_gateway_def)
  have body3: "response_body unavailable = Some (JObject []) \<and> message_of (JObject []) = Inr None"
    by (simp add: unavailable_def)
  have code: "decimal (response_status unavailable) = ''503''"
    by (simp add: unavailable_def)
  note one = http_error_message [OF url bad(1), THEN conjunct1, rule_format, OF body1]
  note two = http_error_message [OF url bad(2), THEN conjunct2, THEN conjunct1, rule_format,
      OF body2]
  note three = http_error_message [OF url bad(3), THEN conjunct2, THEN conjunct2, THEN conjunct1,
      rule_format, OF body3]
  from three code
  have "checkJobStatus ''https://x'' (Fetched unavailable) = Inl (Error ''HTTP error! status: 503'')"
    by simp
  with url bad one two show ?thesis
    by blast
qed

end
